theory Spec2Isabelle
  imports Main
begin

section \<open>IR values\<close>

text \<open>
  The transformation works on LLVM values.  An SSA value is identified by what it is:
  the undef value, an integer constant (bit width and unsigned value), a global, a function
  argument, or the result of an instruction (identified by the instruction).  Constants are
  uniqued in LLVM, so pointer equality on them is equality of these terms.
\<close>

type_synonym bid = nat
type_synonym iid = nat

datatype val =
    Undef
  | ConstInt nat nat
  | Global nat
  | Arg nat
  | Inst iid

text \<open>\<open>isa<Constant>\<close>, \<open>isa<ConstantInt>\<close>, \<open>isa<Instruction>\<close>.\<close>

fun isConstant :: "val \<Rightarrow> bool" where
  "isConstant Undef = True"
| "isConstant (ConstInt w v) = True"
| "isConstant (Global g) = True"
| "isConstant (Arg a) = False"
| "isConstant (Inst i) = False"

fun isConstantInt :: "val \<Rightarrow> bool" where
  "isConstantInt (ConstInt w v) = True"
| "isConstantInt v = False"

text \<open>\<open>Constant::isNullValue\<close> and \<open>Constant::isAllOnesValue\<close> on the constants above.\<close>

fun isNullValue :: "val \<Rightarrow> bool" where
  "isNullValue (ConstInt w v) = (v = 0)"
| "isNullValue v = False"

fun isAllOnesValue :: "val \<Rightarrow> bool" where
  "isAllOnesValue (ConstInt w v) = (v + 1 = 2 ^ w)"
| "isAllOnesValue v = False"

text \<open>
  Failures of the code are values of the model: an assertion that fails, an access outside
  a container, a cast of a null pointer, \<open>abort()\<close> and \<open>fail()\<close>.
\<close>

datatype error =
    NullPointerCast
  | NullDeref
  | OutOfBounds string
  | AssertFailed string
  | Abort
  | Fail string

section \<open>Mask (Mask.cpp)\<close>

text \<open>
  A mask is a predicate and an active vector length, each a value pointer that may be null.
\<close>

record Mask =
  Predicate :: "val option"
  ActiveVectorLength :: "val option"

definition getPred :: "Mask \<Rightarrow> val option" where
  "getPred M = Predicate M"

definition getAVL :: "Mask \<Rightarrow> val option" where
  "getAVL M = ActiveVectorLength M"

text \<open>
  \<open>Mask::inferFromPredicate\<close>.  \<open>Mask::getAllTrue()\<close> is declared in a header that
  is not part of the sources; it is the parameter \<open>allTrue\<close>.
\<close>

definition inferFromPredicate :: "Mask \<Rightarrow> val \<Rightarrow> Mask" where
  "inferFromPredicate allTrue Pred =
     (if isConstant Pred \<and> isAllOnesValue Pred then allTrue
      else \<lparr>Predicate = Some Pred, ActiveVectorLength = None\<rparr>)"

definition fromVectorLength :: "val \<Rightarrow> Mask" where
  "fromVectorLength EVLen = \<lparr>Predicate = None, ActiveVectorLength = Some EVLen\<rparr>"

definition getAllFalse :: Mask where
  "getAllFalse = fromVectorLength (ConstInt 32 0)"

definition knownAllTrue :: "Mask \<Rightarrow> bool" where
  "knownAllTrue M = (getPred M = None \<and> getAVL M = None)"

text \<open>
  \<open>dyn_cast<T>(p)\<close> requires a non-null \<open>p\<close> (LLVM asserts it, and reads through the
  pointer otherwise); on null the model fails with \<open>NullPointerCast\<close>.  The result is the
  value when it is a \<open>T\<close>, and null otherwise.
\<close>

definition dyn_cast :: "(val \<Rightarrow> bool) \<Rightarrow> val option \<Rightarrow> error + val option" where
  "dyn_cast isa p =
     (case p of None \<Rightarrow> Inl NullPointerCast
      | Some v \<Rightarrow> Inr (if isa v then Some v else None))"

text \<open>
  \<open>Mask::knownAllFalse\<close>.  The second test is entered when the predicate is set, and
  casts \<open>getAVL()\<close>.
\<close>

definition knownAllFalse_pred :: "Mask \<Rightarrow> error + bool" where
  "knownAllFalse_pred M =
     (if getPred M \<noteq> None then
        (case dyn_cast isConstant (getAVL M) of
           Inl e \<Rightarrow> Inl e
         | Inr ConstPred \<Rightarrow>
             (case ConstPred of
                Some c \<Rightarrow> if isNullValue c then Inr True else Inr False
              | None \<Rightarrow> Inr False))
      else Inr False)"

definition knownAllFalse :: "Mask \<Rightarrow> error + bool" where
  "knownAllFalse M =
     (if getAVL M \<noteq> None then
        (case dyn_cast isConstantInt (getAVL M) of
           Inl e \<Rightarrow> Inl e
         | Inr ConstAVL \<Rightarrow>
             (case ConstAVL of
                Some c \<Rightarrow> if isNullValue c then Inr True else knownAllFalse_pred M
              | None \<Rightarrow> knownAllFalse_pred M))
      else knownAllFalse_pred M)"

section \<open>Vector shapes\<close>

text \<open>
  Modelled from the spec: the class \<open>rv::VectorShape\<close> (header \<open>rv/shape/vectorShape.h\<close>,
  not part of the sources).  The spec's data model: a shape is one of \<open>Undef\<close>,
  \<open>Uniform(align)\<close>, \<open>Contiguous(align)\<close>, \<open>Strided(s, align)\<close>, \<open>Varying(align)\<close>.
  The factory functions \<open>undef\<close>, \<open>uni\<close>, \<open>cont\<close>, \<open>varying\<close>, \<open>strided\<close> build them;
  \<open>uni()\<close> and \<open>varying()\<close> without an argument take the alignment 1.
\<close>

datatype VectorShape =
    ShapeUndef
  | Uniform nat
  | Contiguous nat
  | Strided nat nat
  | Varying nat

definition undef :: VectorShape where
  "undef = ShapeUndef"

definition uni :: "nat \<Rightarrow> VectorShape" where
  "uni alignment = Uniform alignment"

definition cont :: "nat \<Rightarrow> VectorShape" where
  "cont alignment = Contiguous alignment"

definition varying :: "nat \<Rightarrow> VectorShape" where
  "varying alignment = Varying alignment"

definition strided :: "nat \<Rightarrow> nat \<Rightarrow> VectorShape" where
  "strided stride alignment = Strided stride alignment"

fun isUniform :: "VectorShape \<Rightarrow> bool" where
  "isUniform (Uniform a) = True"
| "isUniform s = False"

section \<open>Shape strings (rvTool.cpp)\<close>

text \<open>
  The driver reads shapes from a \<open>std::stringstream\<close>.  The model of the stream: the
  characters already read (last one first), the characters still to read, and whether the
  stream has failed.  \<open>get()\<close> at the end of the text returns EOF (\<open>None\<close>) and sets the
  fail bit; on a failed stream \<open>get()\<close> and \<open>peek()\<close> return EOF and \<open>unget()\<close> does
  nothing.
\<close>

record sstream =
  consumed :: string
  remaining :: string
  failbit :: bool

definition sstream_of :: "string \<Rightarrow> sstream" where
  "sstream_of s = \<lparr>consumed = [], remaining = s, failbit = False\<rparr>"

definition sget :: "sstream \<Rightarrow> char option \<times> sstream" where
  "sget s =
     (if failbit s then (None, s)
      else (case remaining s of
              [] \<Rightarrow> (None, s\<lparr>failbit := True\<rparr>)
            | c # cs \<Rightarrow> (Some c, s\<lparr>consumed := c # consumed s, remaining := cs\<rparr>)))"

definition unget :: "sstream \<Rightarrow> sstream" where
  "unget s =
     (if failbit s then s
      else (case consumed s of
              [] \<Rightarrow> s\<lparr>failbit := True\<rparr>
            | c # cs \<Rightarrow> s\<lparr>consumed := cs, remaining := c # remaining s\<rparr>))"

definition peek :: "sstream \<Rightarrow> char option" where
  "peek s = (if failbit s then None else (case remaining s of [] \<Rightarrow> None | c # cs \<Rightarrow> Some c))"

definition isspace :: "char \<Rightarrow> bool" where
  "isspace c = (c \<in> set [CHR '' '', CHR 0x09, CHR 0x0A, CHR 0x0B, CHR 0x0C, CHR 0x0D])"

definition isdigit :: "char \<Rightarrow> bool" where
  "isdigit c = (c \<in> set ''0123456789'')"

definition digit_val :: "char \<Rightarrow> nat" where
  "digit_val c = of_char c - 48"

definition decimal :: "string \<Rightarrow> nat" where
  "decimal ds = foldl (\<lambda>a c. 10 * a + digit_val c) 0 ds"

definition UINT_MAX :: nat where
  "UINT_MAX = 4294967295"

text \<open>
  \<open>shapeText >> number\<close> for an \<open>unsigned\<close> (32 bits): leading white space is skipped,
  then the longest run of decimal digits is read.  The extraction fails when the stream has
  failed, when there is no digit, or when the number does not fit.  A sign before the
  digits, which the library also accepts, is not part of the model: the extraction fails
  there.
\<close>

definition extract_unsigned :: "sstream \<Rightarrow> (nat \<times> sstream) option" where
  "extract_unsigned s =
     (if failbit s then None
      else
        let ws = takeWhile isspace (remaining s);
            r1 = dropWhile isspace (remaining s);
            ds = takeWhile isdigit r1;
            r2 = dropWhile isdigit r1
        in if ds = [] \<or> UINT_MAX < decimal ds then None
           else Some (decimal ds, s\<lparr>consumed := rev ds @ rev ws @ consumed s, remaining := r2\<rparr>))"

text \<open>\<open>readNumber\<close>: the extraction, and the assertion that it did not fail.\<close>

definition readNumber :: "sstream \<Rightarrow> error + (nat \<times> sstream)" where
  "readNumber shapeText =
     (case extract_unsigned shapeText of
        None \<Rightarrow> Inl (AssertFailed ''expected a number!'')
      | Some r \<Rightarrow> Inr r)"

text \<open>\<open>decodeAlignment\<close>: expect \<open>a\<close> or roll back and return 1.\<close>

definition decodeAlignment :: "sstream \<Rightarrow> error + (nat \<times> sstream)" where
  "decodeAlignment shapeText =
     (case sget shapeText of
        (c, s1) \<Rightarrow> if c \<noteq> Some CHR ''a'' then Inr (1, unget s1) else readNumber s1)"

text \<open>
  \<open>decodeShape\<close>, with \<open>BOTCHAR = 'B'\<close>, \<open>UNICHAR = 'U'\<close>, \<open>CONTCHAR = 'C'\<close>,
  \<open>STRIDEDCHAR = 'S'\<close>, \<open>VARCHAR = 'T'\<close>.  The alignment is decoded right after the first
  character, before the stride is read.
\<close>

definition decodeShape :: "sstream \<Rightarrow> error + (VectorShape \<times> sstream)" where
  "decodeShape shapestream =
     (case sget shapestream of
        (c, s1) \<Rightarrow>
          if c = Some CHR ''B'' then Inr (undef, s1)
          else (case decodeAlignment s1 of
                  Inl e \<Rightarrow> Inl e
                | Inr (alignment, s2) \<Rightarrow>
                    if c = Some CHR ''C'' then Inr (cont alignment, s2)
                    else if c = Some CHR ''T'' then Inr (varying alignment, s2)
                    else if c = Some CHR ''U'' then Inr (uni alignment, s2)
                    else (case readNumber s2 of
                            Inl e \<Rightarrow> Inl e
                          | Inr (stridedOf, s3) \<Rightarrow>
                              if c = Some CHR ''S'' then Inr (strided stridedOf alignment, s3)
                              else Inl (Fail ''Expected stride specifier.''))))"

section \<open>The IR of a function\<close>

text \<open>
  Basic blocks and instructions are identified by numbers.  A function is the list of its
  blocks, the instruction list of each block (PHI nodes first, the terminator last), and
  what each instruction is.  Of an instruction the model keeps its kind and its operands;
  types are not modelled.  \<open>nextInst\<close> and \<open>nextBlock\<close> are the identities the next created
  instruction and block get.
\<close>

datatype instr =
    PHI "(val \<times> bid) list"
  | Select val val val
  | Call string "val list"
  | Op "val list"
  | Ret "val option"
  | Unreachable
  | Br bid
  | CondBr val bid bid
  | Switch val "bid list"

record func =
  blockList :: "bid list"
  body :: "bid \<Rightarrow> iid list"
  instr :: "iid \<Rightarrow> instr"
  nextInst :: iid
  nextBlock :: bid

fun isPHI :: "instr \<Rightarrow> bool" where
  "isPHI (PHI inc) = True"
| "isPHI i = False"

fun isTerminator :: "instr \<Rightarrow> bool" where
  "isTerminator (Ret v) = True"
| "isTerminator Unreachable = True"
| "isTerminator (Br t) = True"
| "isTerminator (CondBr c t e) = True"
| "isTerminator (Switch c ts) = True"
| "isTerminator i = False"

fun successors :: "instr \<Rightarrow> bid list" where
  "successors (Br t) = [t]"
| "successors (CondBr c t e) = [t, e]"
| "successors (Switch c ts) = ts"
| "successors i = []"

definition getTerminator :: "func \<Rightarrow> bid \<Rightarrow> iid option" where
  "getTerminator f b =
     (if body f b = [] then None
      else if isTerminator (instr f (last (body f b))) then Some (last (body f b))
      else None)"

definition succ_blocks :: "func \<Rightarrow> bid \<Rightarrow> bid list" where
  "succ_blocks f b = (case getTerminator f b of None \<Rightarrow> [] | Some t \<Rightarrow> successors (instr f t))"

text \<open>
  \<open>predecessors(b)\<close>: one entry for every edge into \<open>b\<close>, as LLVM's predecessor iterator
  gives (a conditional branch with both successors \<open>b\<close> counts twice).  The model lists
  them in the order of the function's blocks.
\<close>

definition predecessors :: "func \<Rightarrow> bid \<Rightarrow> bid list" where
  "predecessors f b = concat (map (\<lambda>p. map (\<lambda>x. p) (filter (\<lambda>x. x = b) (succ_blocks f p))) (blockList f))"

definition getParent :: "func \<Rightarrow> iid \<Rightarrow> bid option" where
  "getParent f i = find (\<lambda>b. i \<in> set (body f b)) (blockList f)"

text \<open>
  The PHI nodes at the start of a block, and the rest; \<open>getFirstInsertionPt()\<close> is the
  position between them.
\<close>

definition phis :: "func \<Rightarrow> bid \<Rightarrow> iid list" where
  "phis f b = takeWhile (\<lambda>i. isPHI (instr f i)) (body f b)"

definition nonPhis :: "func \<Rightarrow> bid \<Rightarrow> iid list" where
  "nonPhis f b = dropWhile (\<lambda>i. isPHI (instr f i)) (body f b)"

definition insertAtFirstInsertionPt :: "func \<Rightarrow> bid \<Rightarrow> instr \<Rightarrow> iid \<times> func" where
  "insertAtFirstInsertionPt f b I =
     (nextInst f,
      f\<lparr>body := (body f)(b := phis f b @ [nextInst f] @ nonPhis f b),
        instr := (instr f)(nextInst f := I),
        nextInst := Suc (nextInst f)\<rparr>)"

definition insertBeforeTerminator :: "func \<Rightarrow> bid \<Rightarrow> instr \<Rightarrow> error + (iid \<times> func)" where
  "insertBeforeTerminator f b I =
     (case getTerminator f b of
        None \<Rightarrow> Inl NullDeref
      | Some t \<Rightarrow>
          Inr (nextInst f,
               f\<lparr>body := (body f)(b := butlast (body f b) @ [nextInst f, t]),
                 instr := (instr f)(nextInst f := I),
                 nextInst := Suc (nextInst f)\<rparr>))"

definition insertAtEnd :: "func \<Rightarrow> bid \<Rightarrow> instr \<Rightarrow> iid \<times> func" where
  "insertAtEnd f b I =
     (nextInst f,
      f\<lparr>body := (body f)(b := body f b @ [nextInst f]),
        instr := (instr f)(nextInst f := I),
        nextInst := Suc (nextInst f)\<rparr>)"

text \<open>
  A function is well formed for creating an instruction when the identity of the next
  instruction is in no block.
\<close>

definition fresh_inst :: "func \<Rightarrow> bool" where
  "fresh_inst f = (\<forall>b. nextInst f \<notin> set (body f b))"

definition eraseFromParent :: "func \<Rightarrow> iid \<Rightarrow> func" where
  "eraseFromParent f i = f\<lparr>body := (\<lambda>b. removeAll i (body f b))\<rparr>"

section \<open>The block index (Linearizer::addToBlockIndex)\<close>

text \<open>
  \<open>addToBlockIndex\<close> gives a block the next topological index: the size of \<open>relays\<close>,
  to which it appends a node for the block, and it records the index in \<open>blockIndex\<close>.
  \<open>indexed\<close> is the list of the blocks in the order of their indices.  The accessors
  \<open>getNumBlocks\<close>, \<open>getBlock\<close> and \<open>getIndex\<close> are declared in Linearizer.h, which is not
  part of the sources: \<open>getNumBlocks\<close> is the number of indexed blocks, \<open>getBlock(i)\<close> the
  block with index \<open>i\<close> (an access outside the vector is an error of the model), and
  \<open>getIndex(b)\<close> the index of \<open>b\<close>, with \<open>-1\<close> for a block that has none.
\<close>

record blockindex =
  indexed :: "bid list"
  blockIndex :: "bid \<rightharpoonup> nat"

definition getNumBlocks :: "blockindex \<Rightarrow> nat" where
  "getNumBlocks ix = length (indexed ix)"

definition getBlock :: "blockindex \<Rightarrow> int \<Rightarrow> error + bid" where
  "getBlock ix i =
     (if 0 \<le> i \<and> i < int (length (indexed ix)) then Inr (indexed ix ! nat i) else Inl (OutOfBounds ''relays''))"

definition getIndex :: "blockindex \<Rightarrow> bid \<Rightarrow> int" where
  "getIndex ix b = (case blockIndex ix b of None \<Rightarrow> - 1 | Some i \<Rightarrow> int i)"

definition addToBlockIndex :: "blockindex \<Rightarrow> bid \<Rightarrow> blockindex" where
  "addToBlockIndex ix b =
     ix\<lparr>indexed := indexed ix @ [b], blockIndex := (blockIndex ix)(b \<mapsto> length (indexed ix))\<rparr>"

section \<open>Linearizer::promoteDefinition\<close>

text \<open>
  \<open>defs\<close> is a \<open>std::vector<Value*>\<close>; a null entry is \<open>None\<close>.  An access outside the
  vector is undefined behaviour in the code and the error \<open>OutOfBounds\<close> in the model.
\<close>

definition defs_read :: "val option list \<Rightarrow> int \<Rightarrow> error + val option" where
  "defs_read defs i =
     (if 0 \<le> i \<and> i < int (length defs) then Inr (defs ! nat i) else Inl (OutOfBounds ''defs''))"

definition defs_write :: "val option list \<Rightarrow> int \<Rightarrow> val option \<Rightarrow> error + val option list" where
  "defs_write defs i v =
     (if 0 \<le> i \<and> i < int (length defs) then Inr (defs[nat i := v]) else Inl (OutOfBounds ''defs''))"

definition addIncoming :: "func \<Rightarrow> iid \<Rightarrow> val \<Rightarrow> bid \<Rightarrow> func" where
  "addIncoming f p v b =
     (case instr f p of
        PHI inc \<Rightarrow> f\<lparr>instr := (instr f)(p := PHI (inc @ [(v, b)]))\<rparr>
      | _ \<Rightarrow> f)"

fun addIncomingAll :: "func \<Rightarrow> iid \<Rightarrow> val \<Rightarrow> bid list \<Rightarrow> func" where
  "addIncomingAll f p v [] = f"
| "addIncomingAll f p v (b # bs) = addIncomingAll (addIncoming f p v b) p v bs"

text \<open>
  The value that reaches block \<open>blockId\<close> over the edge from a predecessor with index
  \<open>predIndex\<close>: undef from outside the span, nothing over a back edge (\<open>None\<close>: the code
  continues with the next predecessor), and otherwise the definition recorded for the
  predecessor, with undef for a null entry.
\<close>

definition reaching_inVal :: "val option list \<Rightarrow> int \<Rightarrow> int \<Rightarrow> int \<Rightarrow> error + val option" where
  "reaching_inVal defs defBlockId blockId predIndex =
     (if predIndex < defBlockId then Inr (Some Undef)
      else if predIndex \<ge> blockId then Inr None
      else (case defs_read defs (predIndex - defBlockId) of
              Inl e \<Rightarrow> Inl e
            | Inr reachingDef \<Rightarrow>
                Inr (Some (case reachingDef of None \<Rightarrow> Undef | Some d \<Rightarrow> d))))"

text \<open>
  The loop over the predecessors of one block.  \<open>passed\<close> are the predecessors already
  visited (the range \<open>itBegin .. it\<close>), \<open>localDef\<close> and \<open>localPhi\<close> the loop's variables.
\<close>

fun promote_preds ::
  "blockindex \<Rightarrow> bid \<Rightarrow> int \<Rightarrow> int \<Rightarrow> val option list \<Rightarrow> bid list \<Rightarrow> bid list
     \<Rightarrow> val option \<Rightarrow> iid option \<Rightarrow> func \<Rightarrow> error + (val option \<times> func)" where
  "promote_preds ix block defBlockId blockId defs passed [] localDef localPhi f = Inr (localDef, f)"
| "promote_preds ix block defBlockId blockId defs passed (predBlock # rest) localDef localPhi f =
     (case reaching_inVal defs defBlockId blockId (getIndex ix predBlock) of
        Inl e \<Rightarrow> Inl e
      | Inr None \<Rightarrow>
          promote_preds ix block defBlockId blockId defs (passed @ [predBlock]) rest localDef localPhi f
      | Inr (Some inVal) \<Rightarrow>
          if localDef = None \<or> localDef = Some inVal then
            promote_preds ix block defBlockId blockId defs (passed @ [predBlock]) rest
              (Some inVal) localPhi f
          else
            (case localPhi of
               None \<Rightarrow>
                 (case insertAtFirstInsertionPt f block (PHI []) of
                    (p, f1) \<Rightarrow>
                      promote_preds ix block defBlockId blockId defs (passed @ [predBlock]) rest
                        (Some (Inst p)) (Some p)
                        (addIncoming (addIncomingAll f1 p (the localDef) passed) p inVal predBlock))
             | Some p \<Rightarrow>
                 promote_preds ix block defBlockId blockId defs (passed @ [predBlock]) rest
                   localDef localPhi (addIncoming f p inVal predBlock)))"

text \<open>
  The loop over the blocks, \<open>for (int i = 1; i < span + 1; ++i)\<close>, as a recursion over the
  values of \<open>i\<close>.
\<close>

fun promote_blocks ::
  "blockindex \<Rightarrow> int \<Rightarrow> val option list \<Rightarrow> nat list \<Rightarrow> func \<Rightarrow> error + (val option list \<times> func)" where
  "promote_blocks ix defBlockId defs [] f = Inr (defs, f)"
| "promote_blocks ix defBlockId defs (i # is) f =
     (let blockId = defBlockId + int i in
      case getBlock ix blockId of
        Inl e \<Rightarrow> Inl e
      | Inr block \<Rightarrow>
          (case promote_preds ix block defBlockId blockId defs [] (predecessors f block) None None f of
             Inl e \<Rightarrow> Inl e
           | Inr (localDef, f1) \<Rightarrow>
               (case defs_write defs (int i) localDef of
                  Inl e \<Rightarrow> Inl e
                | Inr defs1 \<Rightarrow> promote_blocks ix defBlockId defs1 is f1)))"

text \<open>
  \<open>promoteDefinition\<close>: the vector has \<open>span = destBlockId - defBlockId + 1\<close> entries, and
  the result is \<open>*defs[span]\<close>.
\<close>

definition promoteDefinition ::
  "blockindex \<Rightarrow> func \<Rightarrow> val \<Rightarrow> int \<Rightarrow> int \<Rightarrow> error + (val \<times> func)" where
  "promoteDefinition ix f inst defBlockId destBlockId =
     (if \<not> defBlockId \<le> destBlockId then Inl (AssertFailed ''defBlockId <= destBlockId'')
      else if defBlockId = destBlockId then Inr (inst, f)
      else
        let span = nat (destBlockId - defBlockId + 1);
            defs = (replicate span None)[0 := Some inst]
        in case promote_blocks ix defBlockId defs [1 ..< span + 1] f of
             Inl e \<Rightarrow> Inl e
           | Inr (defs1, f1) \<Rightarrow>
               (case defs_read defs1 (int span) of
                  Inl e \<Rightarrow> Inl e
                | Inr None \<Rightarrow> Inl NullDeref
                | Inr (Some d) \<Rightarrow> Inr (d, f1)))"


section \<open>Vectorization info\<close>

text \<open>
  Modelled from the spec: the operations of \<open>VectorizationInfo\<close> on shapes and loop
  divergence (vectorizationInfo.cpp is not part of the sources; the header is).  The spec:
  \<open>getShape(v)\<close> returns \<open>Undef\<close> if unknown; \<open>setShape(v, s)\<close> fails silently if \<open>v\<close> is
  pinned and updates \<open>shapes[v]\<close> otherwise.  \<open>dropVectorShape\<close> removes the entry.
  \<open>isMandatory\<close>, which \<open>trackLiveOuts\<close> calls, is not declared in the header that is part
  of the sources; it is the set \<open>mandatory\<close> of blocks.  Loops are identified by numbers.
\<close>

type_synonym lid = nat

record vecinfo =
  shapes :: "val \<rightharpoonup> VectorShape"
  pinned :: "val set"
  divergentLoops :: "lid set"
  mandatory :: "bid set"

definition getVectorShape :: "vecinfo \<Rightarrow> val \<Rightarrow> VectorShape" where
  "getVectorShape vi v = (case shapes vi v of None \<Rightarrow> undef | Some s \<Rightarrow> s)"

definition setVectorShape :: "vecinfo \<Rightarrow> val \<Rightarrow> VectorShape \<Rightarrow> vecinfo" where
  "setVectorShape vi v s = (if v \<in> pinned vi then vi else vi\<lparr>shapes := (shapes vi)(v \<mapsto> s)\<rparr>)"

definition dropVectorShape :: "vecinfo \<Rightarrow> val \<Rightarrow> vecinfo" where
  "dropVectorShape vi v = vi\<lparr>shapes := (shapes vi)(v := None)\<rparr>"

definition isDivergentLoop :: "vecinfo \<Rightarrow> lid \<Rightarrow> bool" where
  "isDivergentLoop vi L = (L \<in> divergentLoops vi)"

definition setLoopDivergence :: "vecinfo \<Rightarrow> lid \<Rightarrow> bool \<Rightarrow> vecinfo" where
  "setLoopDivergence vi L toggle =
     (if toggle then vi\<lparr>divergentLoops := insert L (divergentLoops vi)\<rparr>
      else vi\<lparr>divergentLoops := divergentLoops vi - {L}\<rparr>)"

definition isMandatory :: "vecinfo \<Rightarrow> bid \<Rightarrow> bool" where
  "isMandatory vi b = (b \<in> mandatory vi)"

section \<open>Loops\<close>

text \<open>
  LLVM's \<open>LoopInfo\<close>: a loop has a header, its blocks (those of its sub-loops included),
  a parent and sub-loops; \<open>loopFor\<close> gives the innermost loop of a block.  The latch, the
  exiting blocks and the exit blocks are computed from the control flow graph on each
  call, as LLVM does: \<open>getLoopLatch\<close> is the only predecessor edge of the header from
  inside the loop, and null when there are several.
\<close>

record loop =
  header :: bid
  loopBlocks :: "bid list"
  parentLoop :: "lid option"
  subLoops :: "lid list"

record loopinfo =
  loops :: "lid \<Rightarrow> loop"
  topLevelLoops :: "lid list"
  loopFor :: "bid \<rightharpoonup> lid"

definition contains :: "loop \<Rightarrow> bid \<Rightarrow> bool" where
  "contains L b = (b \<in> set (loopBlocks L))"

definition containsInst :: "func \<Rightarrow> loop \<Rightarrow> iid \<Rightarrow> bool" where
  "containsInst f L i = (case getParent f i of None \<Rightarrow> False | Some b \<Rightarrow> contains L b)"

fun latch_scan :: "loop \<Rightarrow> bid list \<Rightarrow> bid option \<Rightarrow> bid option" where
  "latch_scan L [] Latch = Latch"
| "latch_scan L (Pred # ps) Latch =
     (if contains L Pred then
        (if Latch \<noteq> None then None else latch_scan L ps (Some Pred))
      else latch_scan L ps Latch)"

definition getLoopLatch :: "func \<Rightarrow> loop \<Rightarrow> bid option" where
  "getLoopLatch f L = latch_scan L (predecessors f (header L)) None"

definition getExitingBlocks :: "func \<Rightarrow> loop \<Rightarrow> bid list" where
  "getExitingBlocks f L = filter (\<lambda>b. list_ex (\<lambda>s. \<not> contains L s) (succ_blocks f b)) (loopBlocks L)"

definition getExitBlocks :: "func \<Rightarrow> loop \<Rightarrow> bid list" where
  "getExitBlocks f L = concat (map (\<lambda>b. filter (\<lambda>s. \<not> contains L s) (succ_blocks f b)) (loopBlocks L))"

section \<open>Mask analysis\<close>

text \<open>
  The mask analysis is an input of the linearizer (MaskAnalysis is not part of the
  sources).  The model holds what its three getters return: \<open>getExitMask(block, index)\<close>,
  \<open>getExitMask(block, target)\<close> and \<open>getCombinedLoopExitMask(loop)\<close>, each a value pointer
  that may be null.
\<close>

record maskinfo =
  getExitMask :: "bid \<Rightarrow> nat \<Rightarrow> val option"
  getExitMaskTo :: "bid \<Rightarrow> bid \<Rightarrow> val option"
  getCombinedLoopExitMask :: "lid \<Rightarrow> val option"

section \<open>LiveValueTracker\<close>

text \<open>
  A tracker is made for one loop and its pre-header (\<open>tracker_ctx\<close>).  Its state is the
  map \<open>liveOutPhis\<close>; it changes the function and the shapes (\<open>tstate\<close>).
\<close>

record tracker_ctx =
  tr_loopId :: lid
  tr_loop :: loop
  tr_preHeader :: bid

type_synonym liveOutPhis = "iid \<rightharpoonup> iid"

definition nullcheck :: "'a option \<Rightarrow> error + 'a" where
  "nullcheck p = (case p of None \<Rightarrow> Inl NullPointerCast | Some x \<Rightarrow> Inr x)"

fun find_index_from :: "('a \<Rightarrow> bool) \<Rightarrow> 'a list \<Rightarrow> nat \<Rightarrow> int" where
  "find_index_from P [] n = - 1"
| "find_index_from P (x # xs) n = (if P x then int n else find_index_from P xs (Suc n))"

definition getBasicBlockIndex :: "func \<Rightarrow> iid \<Rightarrow> bid \<Rightarrow> int" where
  "getBasicBlockIndex f p b =
     (case instr f p of PHI inc \<Rightarrow> find_index_from (\<lambda>x. snd x = b) inc 0 | _ \<Rightarrow> - 1)"

definition incoming :: "func \<Rightarrow> iid \<Rightarrow> (val \<times> bid) list" where
  "incoming f p = (case instr f p of PHI inc \<Rightarrow> inc | _ \<Rightarrow> [])"

definition getIncomingValue :: "func \<Rightarrow> iid \<Rightarrow> int \<Rightarrow> error + val" where
  "getIncomingValue f p i =
     (if 0 \<le> i \<and> i < int (length (incoming f p)) then Inr (fst (incoming f p ! nat i))
      else Inl (OutOfBounds ''incoming''))"

definition getIncomingBlock :: "func \<Rightarrow> iid \<Rightarrow> int \<Rightarrow> error + bid" where
  "getIncomingBlock f p i =
     (if 0 \<le> i \<and> i < int (length (incoming f p)) then Inr (snd (incoming f p ! nat i))
      else Inl (OutOfBounds ''incoming''))"

definition setIncomingValue :: "func \<Rightarrow> iid \<Rightarrow> int \<Rightarrow> val \<Rightarrow> error + func" where
  "setIncomingValue f p i v =
     (if 0 \<le> i \<and> i < int (length (incoming f p))
      then Inr (f\<lparr>instr := (instr f)(p := PHI ((incoming f p)[nat i := (v, snd (incoming f p ! nat i))]))\<rparr>)
      else Inl (OutOfBounds ''incoming''))"

definition setIncomingBlock :: "func \<Rightarrow> iid \<Rightarrow> int \<Rightarrow> bid \<Rightarrow> error + func" where
  "setIncomingBlock f p i b =
     (if 0 \<le> i \<and> i < int (length (incoming f p))
      then Inr (f\<lparr>instr := (instr f)(p := PHI ((incoming f p)[nat i := (fst (incoming f p ! nat i), b)]))\<rparr>)
      else Inl (OutOfBounds ''incoming''))"

record tstate =
  ts_live :: liveOutPhis
  ts_fn :: func
  ts_vi :: vecinfo

definition getLoopBlockIndex :: "tracker_ctx \<Rightarrow> func \<Rightarrow> iid \<Rightarrow> int" where
  "getLoopBlockIndex c f lcPhi = find_index_from (\<lambda>x. contains (tr_loop c) (snd x)) (incoming f lcPhi) 0"

text \<open>
  \<open>requestTracker\<close>.  The code builds an \<open>IRBuilder\<close> at the latch's terminator, which
  reads through \<open>getLoopLatch()\<close> and \<open>getTerminator()\<close>: a null pointer there is the error
  \<open>NullDeref\<close>.
\<close>

definition requestTracker :: "tracker_ctx \<Rightarrow> tstate \<Rightarrow> iid \<Rightarrow> error + (iid \<times> tstate)" where
  "requestTracker c t inst =
     (case ts_live t inst of
        Some phi \<Rightarrow> Inr (phi, t)
      | None \<Rightarrow>
          (case insertAtFirstInsertionPt (ts_fn t) (header (tr_loop c)) (PHI []) of
             (phi, f1) \<Rightarrow>
               (case getLoopLatch f1 (tr_loop c) of
                  None \<Rightarrow> Inl NullDeref
                | Some latch \<Rightarrow>
                    (case getTerminator f1 latch of
                       None \<Rightarrow> Inl NullDeref
                     | Some term \<Rightarrow>
                         Inr (phi,
                              \<lparr>ts_live = (ts_live t)(inst \<mapsto> phi),
                               ts_fn = addIncoming (addIncoming f1 phi Undef (tr_preHeader c))
                                         phi (Inst phi) latch,
                               ts_vi = setVectorShape (ts_vi t) (Inst phi) (varying 1)\<rparr>)))))"

text \<open>
  \<open>addTrackerUpdate\<close>.  The value \<open>val\<close> is the live-out instruction \<open>*inInst\<close> at the only
  call; the model takes the instruction.  The select is inserted before the latch's
  terminator.
\<close>

definition addTrackerUpdate ::
  "tracker_ctx \<Rightarrow> maskinfo \<Rightarrow> tstate \<Rightarrow> iid \<Rightarrow> bid \<Rightarrow> bid \<Rightarrow> iid \<Rightarrow> error + tstate" where
  "addTrackerUpdate c m t tracker exiting exit v =
     (case getLoopLatch (ts_fn t) (tr_loop c) of
        None \<Rightarrow> Inl NullDeref
      | Some latch \<Rightarrow>
          (case getIncomingValue (ts_fn t) tracker (getBasicBlockIndex (ts_fn t) tracker latch) of
             Inl e \<Rightarrow> Inl e
           | Inr lastTrackerState \<Rightarrow>
               (case getCombinedLoopExitMask m (tr_loopId c) of
                  None \<Rightarrow> Inl NullDeref
                | Some exitMask \<Rightarrow>
                    (case insertBeforeTerminator (ts_fn t) latch
                            (Select exitMask (Inst v) lastTrackerState) of
                       Inl e \<Rightarrow> Inl e
                     | Inr (updateInst, f1) \<Rightarrow>
                         (case setIncomingValue f1 tracker
                                 (getBasicBlockIndex (ts_fn t) tracker latch) (Inst updateInst) of
                            Inl e \<Rightarrow> Inl e
                          | Inr f2 \<Rightarrow>
                              Inr (t\<lparr>ts_fn := f2,
                                     ts_vi := setVectorShape (ts_vi t) (Inst updateInst) (varying 1)\<rparr>))))))"

definition getLastTrackerState :: "tracker_ctx \<Rightarrow> func \<Rightarrow> iid \<Rightarrow> error + val" where
  "getLastTrackerState c f tracker =
     (case getLoopLatch f (tr_loop c) of
        None \<Rightarrow> Inl NullDeref
      | Some latch \<Rightarrow> getIncomingValue f tracker (getBasicBlockIndex f tracker latch))"

definition getTrackerStateForLiveOut :: "tracker_ctx \<Rightarrow> tstate \<Rightarrow> iid \<Rightarrow> error + val" where
  "getTrackerStateForLiveOut c t liveOutInst =
     (case ts_live t liveOutInst of
        None \<Rightarrow> Inl (AssertFailed ''not a tracked value!'')
      | Some tracker \<Rightarrow> getLastTrackerState c (ts_fn t) tracker)"

definition getExitingBlock :: "func \<Rightarrow> loop \<Rightarrow> bid \<Rightarrow> error + bid" where
  "getExitingBlock f L exitBlock =
     (case find (contains L) (predecessors f exitBlock) of None \<Rightarrow> Inl Abort | Some p \<Rightarrow> Inr p)"

text \<open>
  Replacing uses.  \<open>replaceAllUsesWith\<close> rewrites the operands of every instruction that
  is in a block; the loop over the uses of \<open>inInst\<close> in \<open>trackLiveOuts\<close> rewrites those of
  the instructions outside of the loop.
\<close>

fun map_operands :: "(val \<Rightarrow> val) \<Rightarrow> instr \<Rightarrow> instr" where
  "map_operands g (PHI inc) = PHI (map (\<lambda>(v, b). (g v, b)) inc)"
| "map_operands g (Select c a b) = Select (g c) (g a) (g b)"
| "map_operands g (Call n args) = Call n (map g args)"
| "map_operands g (Op args) = Op (map g args)"
| "map_operands g (Ret r) = Ret (map_option g r)"
| "map_operands g Unreachable = Unreachable"
| "map_operands g (Br t) = Br t"
| "map_operands g (CondBr c t e) = CondBr (g c) t e"
| "map_operands g (Switch c ts) = Switch (g c) ts"

definition subst_val :: "val \<Rightarrow> val \<Rightarrow> val \<Rightarrow> val" where
  "subst_val old new v = (if v = old then new else v)"

definition replaceAllUsesWith :: "func \<Rightarrow> val \<Rightarrow> val \<Rightarrow> func" where
  "replaceAllUsesWith f old new =
     f\<lparr>instr := (\<lambda>i. if getParent f i = None then instr f i
                      else map_operands (subst_val old new) (instr f i))\<rparr>"

definition replaceUsesOutsideLoop :: "func \<Rightarrow> loop \<Rightarrow> val \<Rightarrow> val \<Rightarrow> func" where
  "replaceUsesOutsideLoop f L old new =
     f\<lparr>instr := (\<lambda>i. if getParent f i = None \<or> containsInst f L i then instr f i
                      else map_operands (subst_val old new) (instr f i))\<rparr>"

definition asInstruction :: "val \<Rightarrow> iid option" where
  "asInstruction v = (case v of Inst i \<Rightarrow> Some i | _ \<Rightarrow> None)"

text \<open>
  \<open>trackLiveOuts\<close>: \<open>trackLiveOut_phi\<close> is the body of its loop over the PHI nodes of the
  exit block.  The tracker is requested and updated before \<open>finalExit\<close> is tested.
\<close>

definition trackLiveOut_phi ::
  "tracker_ctx \<Rightarrow> maskinfo \<Rightarrow> bool \<Rightarrow> bid \<Rightarrow> bid \<Rightarrow> tstate \<Rightarrow> iid \<Rightarrow> error + tstate" where
  "trackLiveOut_phi c m finalExit exitingBlock exitBlock t lcPhi =
     (if length (incoming (ts_fn t) lcPhi) \<noteq> 1 then Inl (AssertFailed ''not a LCSSA PHI'')
      else if getLoopBlockIndex c (ts_fn t) lcPhi < 0 then Inl (AssertFailed ''not an LCSSA node'')
      else
        (case getIncomingBlock (ts_fn t) lcPhi (getLoopBlockIndex c (ts_fn t) lcPhi) of
           Inl e \<Rightarrow> Inl e
         | Inr inBlock \<Rightarrow>
             if exitingBlock \<noteq> inBlock then Inl (AssertFailed ''exitingBlock == incoming block'')
             else
               (case getIncomingValue (ts_fn t) lcPhi (getLoopBlockIndex c (ts_fn t) lcPhi) of
                  Inl e \<Rightarrow> Inl e
                | Inr inVal \<Rightarrow>
                    (case asInstruction inVal of
                       None \<Rightarrow> Inr t
                     | Some inInst \<Rightarrow>
                         if \<not> containsInst (ts_fn t) (tr_loop c) inInst then Inr t
                         else
                           (case requestTracker c t inInst of
                              Inl e \<Rightarrow> Inl e
                            | Inr (tracker, t1) \<Rightarrow>
                                (case addTrackerUpdate c m t1 tracker exitingBlock exitBlock inInst of
                                   Inl e \<Rightarrow> Inl e
                                 | Inr t2 \<Rightarrow>
                                     if finalExit then Inr t2
                                     else
                                       (case getTrackerStateForLiveOut c t2 inInst of
                                          Inl e \<Rightarrow> Inl e
                                        | Inr liveOut \<Rightarrow>
                                            (case setIncomingValue (ts_fn t2) lcPhi
                                                    (getLoopBlockIndex c (ts_fn t) lcPhi) liveOut of
                                               Inl e \<Rightarrow> Inl e
                                             | Inr f3 \<Rightarrow>
                                                 Inr (t2\<lparr>ts_fn :=
                                                   replaceUsesOutsideLoop f3 (tr_loop c) (Inst inInst) liveOut\<rparr>)))))))))"

fun trackLiveOut_phis ::
  "tracker_ctx \<Rightarrow> maskinfo \<Rightarrow> bool \<Rightarrow> bid \<Rightarrow> bid \<Rightarrow> tstate \<Rightarrow> iid list \<Rightarrow> error + tstate" where
  "trackLiveOut_phis c m finalExit exitingBlock exitBlock t [] = Inr t"
| "trackLiveOut_phis c m finalExit exitingBlock exitBlock t (lcPhi # rest) =
     (case trackLiveOut_phi c m finalExit exitingBlock exitBlock t lcPhi of
        Inl e \<Rightarrow> Inl e
      | Inr t1 \<Rightarrow> trackLiveOut_phis c m finalExit exitingBlock exitBlock t1 rest)"

definition trackLiveOuts :: "tracker_ctx \<Rightarrow> maskinfo \<Rightarrow> tstate \<Rightarrow> bid \<Rightarrow> error + tstate" where
  "trackLiveOuts c m t exitBlock =
     (case getExitingBlock (ts_fn t) (tr_loop c) exitBlock of
        Inl e \<Rightarrow> Inl e
      | Inr exitingBlock \<Rightarrow>
          if contains (tr_loop c) exitBlock then Inl (AssertFailed ''!loop.contains(&exitBlock)'')
          else if nonPhis (ts_fn t) exitBlock = [] then Inl (OutOfBounds ''exitBlock'')
          else trackLiveOut_phis c m (\<not> isMandatory (ts_vi t) exitBlock) exitingBlock exitBlock t
                 (phis (ts_fn t) exitBlock))"

section \<open>Edge masks\<close>

text \<open>
  The linearizer records the mask of every edge it keeps (\<open>setEdgeMask\<close>) and reads it when
  it folds PHI nodes (\<open>getEdgeMask\<close>).  Both are declared in Linearizer.h, which is not part
  of the sources; the model is a map from edges to values, and the mask of an edge that has
  none is the null pointer.
\<close>

type_synonym edgemasks = "(bid \<times> bid) \<rightharpoonup> val"

definition getEdgeMask :: "edgemasks \<Rightarrow> bid \<Rightarrow> bid \<Rightarrow> val option" where
  "getEdgeMask em a b = em (a, b)"

definition setEdgeMask :: "edgemasks \<Rightarrow> bid \<Rightarrow> bid \<Rightarrow> val option \<Rightarrow> edgemasks" where
  "setEdgeMask em a b edgeMask = em((a, b) := edgeMask)"

section \<open>Linearizer::foldPhis\<close>

text \<open>
  \<open>needsFolding(PHINode &)\<close>: a predecessor of the block is unknown to the PHI node, or
  an incoming block of the PHI node is not a predecessor.  The block is the parent of the PHI
  node.
\<close>

definition needsFoldingPhi :: "func \<Rightarrow> bid \<Rightarrow> iid \<Rightarrow> bool" where
  "needsFoldingPhi f block phi =
     (list_ex (\<lambda>inBlock. getBasicBlockIndex f phi inBlock < 0) (predecessors f block)
      \<or> list_ex (\<lambda>x. snd x \<notin> set (predecessors f block)) (incoming f phi))"

text \<open>
  An \<open>IRBuilder\<close> inserts before a fixed instruction of the block, or at the end of the
  block (\<open>None\<close>).  \<open>IRBuilder::CreateSelect\<close> creates a select instruction, unless its three
  operands are constants: then it returns what LLVM's constant folder makes of them and
  inserts nothing.  The constant folder is the parameter \<open>foldSelect\<close>.
\<close>

definition insertBeforePos :: "iid option \<Rightarrow> iid \<Rightarrow> iid list \<Rightarrow> iid list" where
  "insertBeforePos pos new xs =
     (case pos of
        None \<Rightarrow> xs @ [new]
      | Some x \<Rightarrow> takeWhile (\<lambda>i. i \<noteq> x) xs @ [new] @ dropWhile (\<lambda>i. i \<noteq> x) xs)"

definition CreateSelect ::
  "(val \<Rightarrow> val \<Rightarrow> val \<Rightarrow> val) \<Rightarrow> func \<Rightarrow> bid \<Rightarrow> iid option \<Rightarrow> val \<Rightarrow> val \<Rightarrow> val \<Rightarrow> val \<times> func" where
  "CreateSelect foldSelect f block pos c t e =
     (if isConstant c \<and> isConstant t \<and> isConstant e then (foldSelect c t e, f)
      else (Inst (nextInst f),
            f\<lparr>body := (body f)(block := insertBeforePos pos (nextInst f) (body f block)),
              instr := (instr f)(nextInst f := Select c t e),
              nextInst := Suc (nextInst f)\<rparr>))"

definition firstInsertionPt :: "func \<Rightarrow> bid \<Rightarrow> iid option" where
  "firstInsertionPt f block = (case nonPhis f block of [] \<Rightarrow> None | x # xs \<Rightarrow> Some x)"

text \<open>
  The inner loop of \<open>foldPhis\<close> over the incoming values \<open>1, 2, ...\<close> of one PHI node:
  \<open>defValue = select(edgeMask, inVal, defValue)\<close>, and the new value gets the shape of the
  PHI node.
\<close>

fun fold_chain ::
  "(val \<Rightarrow> val \<Rightarrow> val \<Rightarrow> val) \<Rightarrow> edgemasks \<Rightarrow> bid \<Rightarrow> iid option \<Rightarrow> VectorShape
     \<Rightarrow> (val \<times> bid) list \<Rightarrow> val \<Rightarrow> func \<Rightarrow> vecinfo \<Rightarrow> error + (val \<times> func \<times> vecinfo)" where
  "fold_chain foldSelect em block pos phiShape [] defValue f vi = Inr (defValue, f, vi)"
| "fold_chain foldSelect em block pos phiShape ((inVal, inBlock) # rest) defValue f vi =
     (case getEdgeMask em inBlock block of
        None \<Rightarrow> Inl NullDeref
      | Some edgeMask \<Rightarrow>
          (case CreateSelect foldSelect f block pos edgeMask inVal defValue of
             (d, f1) \<Rightarrow>
               fold_chain foldSelect em block pos phiShape rest d f1 (setVectorShape vi d phiShape)))"

text \<open>
  The body of the outer loop for one PHI node: the chain starts with the incoming value 0;
  the uses of the PHI node are replaced by the last value of the chain and the PHI node is
  erased.  \<open>replaceAllUsesWith\<close> asserts that a value is not replaced by itself.
\<close>

definition foldPhi ::
  "(val \<Rightarrow> val \<Rightarrow> val \<Rightarrow> val) \<Rightarrow> edgemasks \<Rightarrow> bid \<Rightarrow> func \<times> vecinfo \<Rightarrow> iid
     \<Rightarrow> error + (func \<times> vecinfo)" where
  "foldPhi foldSelect em block s phi =
     (case s of
        (f, vi) \<Rightarrow>
          (case incoming f phi of
             [] \<Rightarrow> Inl (OutOfBounds ''incoming'')
           | (v0, b0) # rest \<Rightarrow>
               (case fold_chain foldSelect em block (firstInsertionPt f block)
                       (getVectorShape vi (Inst phi)) rest v0 f vi of
                  Inl e \<Rightarrow> Inl e
                | Inr (defValue, f1, vi1) \<Rightarrow>
                    if defValue = Inst phi
                    then Inl (AssertFailed ''replaceAllUsesWith(this)'')
                    else Inr (eraseFromParent (replaceAllUsesWith f1 (Inst phi) defValue) phi, vi1))))"

fun foldPhi_all ::
  "(val \<Rightarrow> val \<Rightarrow> val \<Rightarrow> val) \<Rightarrow> edgemasks \<Rightarrow> bid \<Rightarrow> func \<times> vecinfo \<Rightarrow> iid list
     \<Rightarrow> error + (func \<times> vecinfo)" where
  "foldPhi_all foldSelect em block s [] = Inr s"
| "foldPhi_all foldSelect em block s (phi # rest) =
     (case foldPhi foldSelect em block s phi of
        Inl e \<Rightarrow> Inl e
      | Inr s1 \<Rightarrow> foldPhi_all foldSelect em block s1 rest)"

text \<open>
  \<open>foldPhis\<close>: nothing is done when the first instruction of the block is no PHI node, or
  when that PHI node does not need folding; otherwise every PHI node at the start of the
  block is folded, in their order.
\<close>

definition foldPhis ::
  "(val \<Rightarrow> val \<Rightarrow> val \<Rightarrow> val) \<Rightarrow> edgemasks \<Rightarrow> func \<times> vecinfo \<Rightarrow> bid \<Rightarrow> error + (func \<times> vecinfo)" where
  "foldPhis foldSelect em s block =
     (case body (fst s) block of
        [] \<Rightarrow> Inl (OutOfBounds ''block'')
      | i # is \<Rightarrow>
          if \<not> isPHI (instr (fst s) i) then Inr s
          else if \<not> needsFoldingPhi (fst s) block i then Inr s
          else foldPhi_all foldSelect em block s (phis (fst s) block))"

text \<open>
  Well-formedness used by the properties of \<open>foldPhis\<close>: the identities of the instructions
  in the blocks are below the identity of the next instruction, and the PHI nodes of a
  block have the same incoming blocks (which LLVM's verifier requires).
\<close>

definition insts_below :: "func \<Rightarrow> bool" where
  "insts_below f = (\<forall>b. \<forall>i \<in> set (body f b). i < nextInst f)"

definition same_incoming_blocks :: "func \<Rightarrow> bid \<Rightarrow> bool" where
  "same_incoming_blocks f block =
     (\<forall>p \<in> set (phis f block). \<forall>q \<in> set (phis f block).
        set (map snd (incoming f p)) = set (map snd (incoming f q)))"

text \<open>
  The instruction list after several instructions have been inserted, one after the other,
  at the same position.
\<close>

definition insertManyBefore :: "iid option \<Rightarrow> iid list \<Rightarrow> iid list \<Rightarrow> iid list" where
  "insertManyBefore pos new xs =
     (case pos of
        None \<Rightarrow> xs @ new
      | Some x \<Rightarrow> takeWhile (\<lambda>i. i \<noteq> x) xs @ new @ dropWhile (\<lambda>i. i \<noteq> x) xs)"

section \<open>The select chain of the specification\<close>

text \<open>
  The chain \<open>d = v\<^sub>0; for i \<ge> 1: d = select(edgeMask(pred\<^sub>i, B), v\<^sub>i, d)\<close> of the
  specification, computed at once from the masks and values \<open>(m\<^sub>i, v\<^sub>i)\<close>, for comparison
  with \<open>fold_chain\<close>.  Each step gives the new \<open>d\<close> and the select instruction created
  for it with its identity, or no instruction when the three operands are constants and
  the IR builder folds them.
\<close>

fun spec_chain ::
  "(val \<Rightarrow> val \<Rightarrow> val \<Rightarrow> val) \<Rightarrow> iid \<Rightarrow> val \<Rightarrow> (val \<times> val) list
     \<Rightarrow> (val \<times> (iid \<times> instr) option) list" where
  "spec_chain foldSelect n d [] = []"
| "spec_chain foldSelect n d ((m, v) # r) =
     (if isConstant m \<and> isConstant v \<and> isConstant d
      then (foldSelect m v d, None) # spec_chain foldSelect n (foldSelect m v d) r
      else (Inst n, Some (n, Select m v d)) # spec_chain foldSelect (Suc n) (Inst n) r)"

text \<open>
  Folding one PHI node in the words of the specification: the selects of its chain stand
  between the PHI nodes and the other instructions of the block, in the order of the chain;
  every value of the chain gets the shape of the PHI node; the uses of the PHI node are
  replaced by the last value of the chain and the PHI node is erased.
\<close>

definition spec_foldPhi ::
  "(val \<Rightarrow> val \<Rightarrow> val \<Rightarrow> val) \<Rightarrow> edgemasks \<Rightarrow> bid \<Rightarrow> func \<times> vecinfo \<Rightarrow> iid \<Rightarrow> func \<times> vecinfo" where
  "spec_foldPhi foldSelect em B s p =
     (case s of
        (f, vi) \<Rightarrow>
          (let v0 = fst (hd (incoming f p));
               steps = spec_chain foldSelect (nextInst f) v0
                         (map (\<lambda>x. (the (em (snd x, B)), fst x)) (tl (incoming f p)));
               selects = List.map_filter snd steps;
               d = last (v0 # map fst steps);
               fc = f\<lparr>body := (body f)(B := phis f B @ map fst selects @ nonPhis f B),
                      instr := (\<lambda>i. case map_of selects i of Some I \<Rightarrow> I | None \<Rightarrow> instr f i),
                      nextInst := nextInst f + length selects\<rparr>
           in (eraseFromParent (replaceAllUsesWith fc (Inst p) d) p,
               fold (\<lambda>d w. setVectorShape w d (getVectorShape vi (Inst p))) (map fst steps) vi)))"

section \<open>The state of the linearizer\<close>

text \<open>
  A relay node is \<open>(id, block, next)\<close>: the index of the scheduled target, the relay block
  that stands in for it, and the next node of the chain.
\<close>

datatype RelayNode = RelayNode (rn_id: int) (rn_block: bid) (rn_next: "RelayNode option")

text \<open>A function declaration of the module: its type, its linkage and its attributes.\<close>

record fdecl =
  fd_type :: string
  fd_external :: bool
  fd_attrs :: "string list"

text \<open>
  The linearizer works on the function, the vectorization info, the mask analysis, the
  dominator tree (the immediate dominator of each block), the edge masks, the relay chains
  and the functions of the module.  The loop info and, once built, the block index are only
  read.
\<close>

record 'r lstate =
  l_fn :: func
  l_vi :: vecinfo
  l_ma :: maskinfo
  l_dt :: "bid \<rightharpoonup> bid"
  l_em :: edgemasks
  l_rs :: 'r
  l_mod :: "string \<rightharpoonup> fdecl"

text \<open>
  The code that is not part of the sources and that the linearizer calls is taken as a
  parameter: the operations on relay chains \<open>getRelay\<close>, \<open>addTargetToRelay\<close> and
  \<open>advanceScheduleHead\<close> (declared in Linearizer.h), \<open>MaskAnalysis::updateExitMasks\<close>, and
  the constant folder of LLVM's IR builder.  The relay operations work on a store of their
  own (\<open>'r\<close>).  \<open>addTargetToRelay\<close> is given the identity of the next new block and says how
  many relay blocks it has created from there on; \<open>advanceScheduleHead\<close> returns the next
  relay node and the relay block of the target (its out parameter), each of which may be
  null.  \<open>updateExitMasks\<close> changes the mask analysis.
\<close>

record 'r externals =
  x_getRelay :: "'r \<Rightarrow> int \<Rightarrow> RelayNode option"
  x_addTargetToRelay :: "'r \<Rightarrow> RelayNode option \<Rightarrow> int \<Rightarrow> bid \<Rightarrow> RelayNode \<times> nat \<times> 'r"
  x_advanceScheduleHead :: "'r \<Rightarrow> int \<Rightarrow> RelayNode option \<times> bid option \<times> 'r"
  x_updateExitMasks :: "maskinfo \<Rightarrow> bid \<Rightarrow> val \<Rightarrow> val option \<Rightarrow> iid option \<Rightarrow> maskinfo"
  x_foldSelect :: "val \<Rightarrow> val \<Rightarrow> val \<Rightarrow> val"

text \<open>New empty blocks at the end of the function.\<close>

definition createBlocks :: "func \<Rightarrow> nat \<Rightarrow> func" where
  "createBlocks f k =
     f\<lparr>blockList := blockList f @ [nextBlock f ..< nextBlock f + k],
       body := (\<lambda>b. if nextBlock f \<le> b \<and> b < nextBlock f + k then [] else body f b),
       nextBlock := nextBlock f + k\<rparr>"

definition getRelay :: "'r externals \<Rightarrow> 'r lstate \<Rightarrow> int \<Rightarrow> RelayNode option" where
  "getRelay X s i = x_getRelay X (l_rs s) i"

definition addTargetToRelay ::
  "'r externals \<Rightarrow> 'r lstate \<Rightarrow> RelayNode option \<Rightarrow> int \<Rightarrow> RelayNode \<times> 'r lstate" where
  "addTargetToRelay X s anchor i =
     (case x_addTargetToRelay X (l_rs s) anchor i (nextBlock (l_fn s)) of
        (node, k, r) \<Rightarrow> (node, s\<lparr>l_rs := r, l_fn := createBlocks (l_fn s) k\<rparr>))"

definition advanceScheduleHead ::
  "'r externals \<Rightarrow> 'r lstate \<Rightarrow> int \<Rightarrow> (RelayNode option \<times> bid option) \<times> 'r lstate" where
  "advanceScheduleHead X s i =
     (case x_advanceScheduleHead X (l_rs s) i of
        (advanced, relayBlock, r) \<Rightarrow> ((advanced, relayBlock), s\<lparr>l_rs := r\<rparr>))"

section \<open>The dominator tree\<close>

text \<open>
  LLVM's \<open>DominatorTree\<close>, as the immediate dominator of each block.  \<open>dominates(a, b)\<close>
  walks from \<open>b\<close> towards the root; the walk is bounded by the number of blocks.
\<close>

fun dom_walk :: "(bid \<rightharpoonup> bid) \<Rightarrow> nat \<Rightarrow> bid \<Rightarrow> bid \<Rightarrow> bool" where
  "dom_walk idom 0 a b = (a = b)"
| "dom_walk idom (Suc n) a b =
     (a = b \<or> (case idom b of None \<Rightarrow> False | Some p \<Rightarrow> dom_walk idom n a p))"

definition dominates :: "'r lstate \<Rightarrow> bid \<Rightarrow> bid \<Rightarrow> bool" where
  "dominates s a b = dom_walk (l_dt s) (length (blockList (l_fn s))) a b"

section \<open>Linearizer::dropLoopExit\<close>

text \<open>
  The terminator of an exiting block is replaced by an unconditional branch to its first
  successor in the loop; the branch gets the shape uniform.
\<close>

definition replaceTerminator :: "func \<Rightarrow> bid \<Rightarrow> instr \<Rightarrow> iid \<times> func" where
  "replaceTerminator f b I =
     (nextInst f,
      f\<lparr>body := (body f)(b := butlast (body f b) @ [nextInst f]),
        instr := (instr f)(nextInst f := I),
        nextInst := Suc (nextInst f)\<rparr>)"

definition dropLoopExit :: "'r lstate \<Rightarrow> bid \<Rightarrow> loop \<Rightarrow> error + 'r lstate" where
  "dropLoopExit s block L =
     (case getTerminator (l_fn s) block of
        None \<Rightarrow> Inl NullDeref
      | Some tm \<Rightarrow>
          if \<not> contains L block
          then Inl (AssertFailed ''can not drop loop exit edge from block that is not in loop'')
          else if \<not> length (successors (instr (l_fn s) tm)) > 1
          then Inl (AssertFailed ''these must be an edge to drop here'')
          else
            (case find (contains L) (successors (instr (l_fn s) tm)) of
               None \<Rightarrow> Inl (AssertFailed ''could not find successor within loop'')
             | Some uniqueLoopSucc \<Rightarrow>
                 (case replaceTerminator (l_fn s) block (Br uniqueLoopSucc) of
                    (loopBranch, f1) \<Rightarrow>
                      Inr (s\<lparr>l_fn := f1,
                             l_vi := setVectorShape (dropVectorShape (l_vi s) (Inst tm))
                                       (Inst loopBranch) (uni 1)\<rparr>))))"

fun dropLoopExits :: "'r lstate \<Rightarrow> bid list \<Rightarrow> loop \<Rightarrow> error + 'r lstate" where
  "dropLoopExits s [] L = Inr s"
| "dropLoopExits s (exitingBlock # rest) L =
     (case dropLoopExit s exitingBlock L of
        Inl e \<Rightarrow> Inl e
      | Inr s1 \<Rightarrow> dropLoopExits s1 rest L)"

section \<open>Linearizer::createReduction\<close>

text \<open>
  \<open>requestReductionFunc\<close> returns the function of that name, or declares it: boolean to
  boolean, external, with the attributes the code sets.  \<open>createReduction\<close> appends the call
  to the block and gives it the shape uniform.
\<close>

definition requestReductionFunc :: "(string \<rightharpoonup> fdecl) \<Rightarrow> string \<Rightarrow> (string \<rightharpoonup> fdecl)" where
  "requestReductionFunc m name =
     (case m name of
        Some redFunc \<Rightarrow> m
      | None \<Rightarrow>
          m(name \<mapsto> \<lparr>fd_type = ''i1 (i1)'', fd_external = True,
                      fd_attrs = [''readnone'', ''nounwind'', ''convergent'', ''norecurse'']\<rparr>))"

definition createReduction :: "'r lstate \<Rightarrow> val \<Rightarrow> string \<Rightarrow> bid \<Rightarrow> iid \<times> 'r lstate" where
  "createReduction s pred name atEnd =
     (case insertAtEnd (l_fn s) atEnd (Call name [pred]) of
        (call, f1) \<Rightarrow>
          (call, s\<lparr>l_mod := requestReductionFunc (l_mod s) name,
                   l_fn := f1,
                   l_vi := setVectorShape (l_vi s) (Inst call) (uni 1)\<rparr>))"

section \<open>Linearizer::convertToSingleExitLoop\<close>

text \<open>
  The first loop over the exit blocks: every exit block is added to the relay chain, and
  the live-outs of the exits of this loop level are tracked.
\<close>

fun collectExits ::
  "'r externals \<Rightarrow> loopinfo \<Rightarrow> blockindex \<Rightarrow> tracker_ctx
     \<Rightarrow> RelayNode option \<times> liveOutPhis \<times> 'r lstate \<Rightarrow> bid list
     \<Rightarrow> error + (RelayNode option \<times> liveOutPhis \<times> 'r lstate)" where
  "collectExits X li ix c st [] = Inr st"
| "collectExits X li ix c st (exitBlock # rest) =
     (case st of
        (loopExitRelay, live, s) \<Rightarrow>
          (case addTargetToRelay X s loopExitRelay (getIndex ix exitBlock) of
             (node, s1) \<Rightarrow>
               (case getExitingBlock (l_fn s1) (tr_loop c) exitBlock of
                  Inl e \<Rightarrow> Inl e
                | Inr exitingBlock \<Rightarrow>
                    if loopFor li exitingBlock = Some (tr_loopId c) then
                      (case trackLiveOuts c (l_ma s1)
                              \<lparr>ts_live = live, ts_fn = l_fn s1, ts_vi = l_vi s1\<rparr> exitBlock of
                         Inl e \<Rightarrow> Inl e
                       | Inr t \<Rightarrow>
                           collectExits X li ix c
                             (Some node, ts_live t, s1\<lparr>l_fn := ts_fn t, l_vi := ts_vi t\<rparr>) rest)
                    else collectExits X li ix c (Some node, live, s1) rest)))"

text \<open>
  The repair of one incoming value of a closed-SSA PHI node: a value that is no instruction
  is left alone; otherwise the incoming block becomes the latch, and when the block of the
  definition does not dominate the exit block, the definition is promoted from its block to
  the latch.
\<close>

definition repairIncoming ::
  "blockindex \<Rightarrow> loop \<Rightarrow> bid \<Rightarrow> int \<Rightarrow> bid \<Rightarrow> iid \<Rightarrow> 'r lstate \<Rightarrow> nat \<Rightarrow> error + 'r lstate" where
  "repairIncoming ix L latch latchIndex block lcPhi s i =
     (case getIncomingBlock (l_fn s) lcPhi (int i) of
        Inl e \<Rightarrow> Inl e
      | Inr inBlock \<Rightarrow>
          if \<not> contains L inBlock then Inl (AssertFailed ''not an LCSSA Phi node'')
          else
            (case getIncomingValue (l_fn s) lcPhi (int i) of
               Inl e \<Rightarrow> Inl e
             | Inr inVal \<Rightarrow>
                 (case asInstruction inVal of
                    None \<Rightarrow> Inr s
                  | Some inst \<Rightarrow>
                      (case getParent (l_fn s) inst of
                         None \<Rightarrow> Inl NullDeref
                       | Some defBlock \<Rightarrow>
                           (case setIncomingBlock (l_fn s) lcPhi (int i) latch of
                              Inl e \<Rightarrow> Inl e
                            | Inr f1 \<Rightarrow>
                                if dominates s defBlock block then Inr (s\<lparr>l_fn := f1\<rparr>)
                                else if \<not> (getIndex ix (header L) \<le> getIndex ix defBlock
                                           \<and> getIndex ix defBlock \<le> latchIndex)
                                then Inl (AssertFailed ''non-dominating def not in loop'')
                                else
                                  (case promoteDefinition ix f1 (Inst inst)
                                          (getIndex ix defBlock) latchIndex of
                                     Inl e \<Rightarrow> Inl e
                                   | Inr (dominatingDef, f2) \<Rightarrow>
                                       (case setIncomingValue f2 lcPhi (int i) dominatingDef of
                                          Inl e \<Rightarrow> Inl e
                                        | Inr f3 \<Rightarrow> Inr (s\<lparr>l_fn := f3\<rparr>))))))))"

fun repairIncomings ::
  "blockindex \<Rightarrow> loop \<Rightarrow> bid \<Rightarrow> int \<Rightarrow> bid \<Rightarrow> iid \<Rightarrow> 'r lstate \<Rightarrow> nat list \<Rightarrow> error + 'r lstate" where
  "repairIncomings ix L latch latchIndex block lcPhi s [] = Inr s"
| "repairIncomings ix L latch latchIndex block lcPhi s (i # is) =
     (case repairIncoming ix L latch latchIndex block lcPhi s i of
        Inl e \<Rightarrow> Inl e
      | Inr s1 \<Rightarrow> repairIncomings ix L latch latchIndex block lcPhi s1 is)"

text \<open>
  One closed-SSA PHI node of an old exit block: its incoming values are repaired, then its
  uses are replaced by its incoming value 0 and it is erased (``we eliminate LCSSA Phis
  instead of fixing their predecessor blocks'').
\<close>

definition eliminateLcPhi ::
  "blockindex \<Rightarrow> loop \<Rightarrow> bid \<Rightarrow> int \<Rightarrow> bid \<Rightarrow> 'r lstate \<Rightarrow> iid \<Rightarrow> error + 'r lstate" where
  "eliminateLcPhi ix L latch latchIndex block s lcPhi =
     (case repairIncomings ix L latch latchIndex block lcPhi s
             [0 ..< length (incoming (l_fn s) lcPhi)] of
        Inl e \<Rightarrow> Inl e
      | Inr s1 \<Rightarrow>
          (case getIncomingValue (l_fn s1) lcPhi 0 of
             Inl e \<Rightarrow> Inl e
           | Inr v \<Rightarrow>
               if v = Inst lcPhi then Inl (AssertFailed ''replaceAllUsesWith(this)'')
               else Inr (s1\<lparr>l_fn := eraseFromParent (replaceAllUsesWith (l_fn s1) (Inst lcPhi) v) lcPhi\<rparr>)))"

text \<open>
  The loop over the PHI nodes of one old exit block runs as long as the first instruction
  of the block is a PHI node.  A run that does not end has the value \<open>None\<close>.
\<close>

partial_function (option) eliminateLcPhis ::
  "blockindex \<Rightarrow> loop \<Rightarrow> bid \<Rightarrow> int \<Rightarrow> bid \<Rightarrow> 'r lstate \<Rightarrow> (error + 'r lstate) option" where
  "eliminateLcPhis ix L latch latchIndex block s =
     (case body (l_fn s) block of
        [] \<Rightarrow> Some (Inl (OutOfBounds ''block''))
      | i # is \<Rightarrow>
          if \<not> isPHI (instr (l_fn s) i) then Some (Inr s)
          else (case eliminateLcPhi ix L latch latchIndex block s i of
                  Inl e \<Rightarrow> Some (Inl e)
                | Inr s1 \<Rightarrow> eliminateLcPhis ix L latch latchIndex block s1))"

declare eliminateLcPhis.simps [code]

text \<open>The loop over the old exit blocks; the block of the exit relay is skipped.\<close>

fun moveLcssaNodes ::
  "blockindex \<Rightarrow> loop \<Rightarrow> bid \<Rightarrow> int \<Rightarrow> RelayNode option \<Rightarrow> 'r lstate \<Rightarrow> bid list
     \<Rightarrow> (error + 'r lstate) option" where
  "moveLcssaNodes ix L latch latchIndex loopExitRelay s [] = Some (Inr s)"
| "moveLcssaNodes ix L latch latchIndex loopExitRelay s (block # rest) =
     (case loopExitRelay of
        None \<Rightarrow> Some (Inl NullDeref)
      | Some relay \<Rightarrow>
          if block = rn_block relay then moveLcssaNodes ix L latch latchIndex loopExitRelay s rest
          else
            (case eliminateLcPhis ix L latch latchIndex block s of
               None \<Rightarrow> None
             | Some (Inl e) \<Rightarrow> Some (Inl e)
             | Some (Inr s1) \<Rightarrow> moveLcssaNodes ix L latch latchIndex loopExitRelay s1 rest))"

text \<open>
  The new exit of the loop at the latch: the live mask is read, the terminator of the latch
  is erased, the call of \<open>rv_any\<close> and the conditional branch are appended, the branch gets
  the shape uniform, the loop is marked as not divergent, and the exit masks of the latch
  are updated.
\<close>

definition createLatchExit ::
  "'r externals \<Rightarrow> 'r lstate \<Rightarrow> lid \<Rightarrow> bid \<Rightarrow> bid \<Rightarrow> RelayNode option \<Rightarrow> error + 'r lstate" where
  "createLatchExit X s Lid latch hdr loopExitRelay =
     (case getTerminator (l_fn s) latch of
        None \<Rightarrow> Inl (AssertFailed ''latchTerm'')
      | Some latchTerm \<Rightarrow>
          if length (successors (instr (l_fn s) latchTerm)) \<noteq> 1
          then Inl (AssertFailed ''latchTerm->getNumSuccessors() == 1'')
          else
            (case getExitMaskTo (l_ma s) latch hdr of
               None \<Rightarrow> Inl NullDeref
             | Some liveCond \<Rightarrow>
                 (case createReduction
                         (s\<lparr>l_vi := dropVectorShape (l_vi s) (Inst latchTerm),
                            l_fn := eraseFromParent (l_fn s) latchTerm\<rparr>)
                         liveCond ''rv_any'' latch of
                    (anyThreadLiveCond, s1) \<Rightarrow>
                      (case loopExitRelay of
                         None \<Rightarrow> Inl NullDeref
                       | Some relay \<Rightarrow>
                           (case insertAtEnd (l_fn s1) latch
                                   (CondBr (Inst anyThreadLiveCond) hdr (rn_block relay)) of
                              (branch, f2) \<Rightarrow>
                                Inr (s1\<lparr>l_fn := f2,
                                        l_vi := setLoopDivergence
                                                  (setVectorShape (l_vi s1) (Inst branch) (uni 1))
                                                  Lid False,
                                        l_ma := x_updateExitMasks X (l_ma s1) latch
                                                  (Inst anyThreadLiveCond)
                                                  (getCombinedLoopExitMask (l_ma s1) Lid)
                                                  (firstInsertionPt f2 latch)\<rparr>))))))"

text \<open>
  \<open>convertToSingleExitLoop\<close>.  \<open>convertPrefix\<close> is the function up to the point where the
  exits of the exiting blocks have been dropped; \<open>createLatchExit\<close> is the rest.
\<close>

definition convertPrefix ::
  "'r externals \<Rightarrow> loopinfo \<Rightarrow> blockindex \<Rightarrow> 'r lstate \<Rightarrow> lid \<Rightarrow> RelayNode option
     \<Rightarrow> (error + (bid \<times> RelayNode option \<times> 'r lstate)) option" where
  "convertPrefix X li ix s Lid exitRelay =
     (case getRelay X s (getIndex ix (header (loops li Lid))) of
        None \<Rightarrow> Some (Inl NullDeref)
      | Some relay \<Rightarrow>
          (case predecessors (l_fn s) (rn_block relay) of
             [] \<Rightarrow> Some (Inl (OutOfBounds ''predecessors''))
           | preHeader # ps \<Rightarrow>
               (case getLoopLatch (l_fn s) (loops li Lid) of
                  None \<Rightarrow> Some (Inl NullDeref)
                | Some latch \<Rightarrow>
                    if \<not> getIndex ix latch \<ge> 0 then Some (Inl (AssertFailed ''latchIndex >= 0''))
                    else if \<not> getIndex ix (header (loops li Lid)) \<ge> 0
                    then Some (Inl (AssertFailed ''getIndex(header) >= 0''))
                    else
                      (case collectExits X li ix
                              \<lparr>tr_loopId = Lid, tr_loop = loops li Lid, tr_preHeader = preHeader\<rparr>
                              (exitRelay, Map.empty, s)
                              (getExitBlocks (l_fn s) (loops li Lid)) of
                         Inl e \<Rightarrow> Some (Inl e)
                       | Inr (loopExitRelay, live, s1) \<Rightarrow>
                           (case moveLcssaNodes ix (loops li Lid) latch (getIndex ix latch)
                                   loopExitRelay s1 (getExitBlocks (l_fn s) (loops li Lid)) of
                              None \<Rightarrow> None
                            | Some (Inl e) \<Rightarrow> Some (Inl e)
                            | Some (Inr s2) \<Rightarrow>
                                (case dropLoopExits s2 (getExitingBlocks (l_fn s2) (loops li Lid))
                                        (loops li Lid) of
                                   Inl e \<Rightarrow> Some (Inl e)
                                 | Inr s3 \<Rightarrow> Some (Inr (latch, loopExitRelay, s3))))))))"

definition convertToSingleExitLoop ::
  "'r externals \<Rightarrow> loopinfo \<Rightarrow> blockindex \<Rightarrow> 'r lstate \<Rightarrow> lid \<Rightarrow> RelayNode option
     \<Rightarrow> (error + (RelayNode \<times> 'r lstate)) option" where
  "convertToSingleExitLoop X li ix s Lid exitRelay =
     (case convertPrefix X li ix s Lid exitRelay of
        None \<Rightarrow> None
      | Some (Inl e) \<Rightarrow> Some (Inl e)
      | Some (Inr (latch, loopExitRelay, s3)) \<Rightarrow>
          (case createLatchExit X s3 Lid latch (header (loops li Lid)) loopExitRelay of
             Inl e \<Rightarrow> Some (Inl e)
           | Inr s4 \<Rightarrow>
               (case loopExitRelay of
                  None \<Rightarrow> Some (Inl NullDeref)
                | Some relay \<Rightarrow> Some (Inr (relay, s4)))))"



section \<open>Linearizer::needsFolding(TerminatorInst &)\<close>

text \<open>
  A terminator needs folding when it is a conditional branch whose shape is not uniform.
  A switch fails the assertion; \<open>cast<BranchInst>\<close> fails on an instruction that is neither a
  return, an unreachable nor a branch.
\<close>

definition needsFolding :: "vecinfo \<Rightarrow> func \<Rightarrow> iid \<Rightarrow> error + bool" where
  "needsFolding vi f termInst =
     (case instr f termInst of
        Switch c ts \<Rightarrow> Inl (AssertFailed ''switches unsupported at the moment'')
      | Ret v \<Rightarrow> Inr False
      | Unreachable \<Rightarrow> Inr False
      | Br t \<Rightarrow> Inr False
      | CondBr c t e \<Rightarrow> Inr (\<not> isUniform (getVectorShape vi (Inst termInst)))
      | _ \<Rightarrow> Inl NullPointerCast)"

section \<open>Linearizer::buildBlockIndex\<close>

text \<open>
  The region is the predicate \<open>inRegion\<close> on blocks (the class Region is not part of the
  sources).  The stack is a list with its top first.  \<open>pendingPreds\<close> are the predecessors
  the two loops over predecessors push: those in the region, outside of the filter loop
  when there is one, and without an index; they are pushed in their order, so the last one
  ends on top.
\<close>

definition pendingPreds ::
  "(bid \<Rightarrow> bool) \<Rightarrow> blockindex \<Rightarrow> func \<Rightarrow> loop option \<Rightarrow> bid \<Rightarrow> bid list" where
  "pendingPreds inRegion ix f filterLoop block =
     filter (\<lambda>p. inRegion p
                \<and> \<not> (case filterLoop of None \<Rightarrow> False | Some L \<Rightarrow> contains L p)
                \<and> blockIndex ix p = None)
       (predecessors f block)"

text \<open>
  The first visit of a loop: the block on top of the stack is dropped, the latch is pushed
  and on top of it the pending predecessors of the header.
\<close>

definition enterLoop ::
  "(bid \<Rightarrow> bool) \<Rightarrow> func \<Rightarrow> loop \<Rightarrow> bid list \<Rightarrow> blockindex \<Rightarrow> error + bid list" where
  "enterLoop inRegion f L rest ix =
     (case getLoopLatch f L of
        None \<Rightarrow> Inl NullDeref
      | Some latch \<Rightarrow> Inr (rev (pendingPreds inRegion ix f (Some L) (header L)) @ latch # rest))"

text \<open>
  A block whose loop has been seen, or that is in no loop: its pending predecessors are
  pushed; when there is none the block is popped and gets the next index, and after a loop
  header the latch of the loop is pushed unless it has an index.
\<close>

definition visitBlock ::
  "loopinfo \<Rightarrow> (bid \<Rightarrow> bool) \<Rightarrow> func \<Rightarrow> bid \<Rightarrow> bid list \<Rightarrow> blockindex
     \<Rightarrow> error + (bid list \<times> blockindex)" where
  "visitBlock li inRegion f block rest ix =
     (let filterLoop = (case loopFor li block of
                          None \<Rightarrow> None
                        | Some l \<Rightarrow> if header (loops li l) = block then Some (loops li l) else None)
      in if pendingPreds inRegion ix f filterLoop block \<noteq> []
         then Inr (rev (pendingPreds inRegion ix f filterLoop block) @ block # rest, ix)
         else
           (case filterLoop of
              None \<Rightarrow> Inr (rest, addToBlockIndex ix block)
            | Some L \<Rightarrow>
                (case getLoopLatch f L of
                   None \<Rightarrow> Inl (AssertFailed ''loop does not have a latch'')
                 | Some loopLatch \<Rightarrow>
                     if blockIndex (addToBlockIndex ix block) loopLatch = None
                     then Inr (loopLatch # rest, addToBlockIndex ix block)
                     else Inr (rest, addToBlockIndex ix block))))"

text \<open>One round of the loop \<open>while (!stack.empty())\<close>, for the block on top of the stack.\<close>

definition indexStep ::
  "loopinfo \<Rightarrow> (bid \<Rightarrow> bool) \<Rightarrow> func \<Rightarrow> bid \<Rightarrow> bid list \<Rightarrow> lid set \<Rightarrow> blockindex
     \<Rightarrow> error + (bid list \<times> lid set \<times> blockindex)" where
  "indexStep li inRegion f block rest pushedLoops ix =
     (if blockIndex ix block \<noteq> None then Inr (rest, pushedLoops, ix)
      else
        (case loopFor li block of
           None \<Rightarrow>
             (case visitBlock li inRegion f block rest ix of
                Inl e \<Rightarrow> Inl e
              | Inr (stack1, ix1) \<Rightarrow> Inr (stack1, pushedLoops, ix1))
         | Some l \<Rightarrow>
             if l \<notin> pushedLoops then
               (case enterLoop inRegion f (loops li l) rest ix of
                  Inl e \<Rightarrow> Inl e
                | Inr stack1 \<Rightarrow> Inr (stack1, insert l pushedLoops, ix))
             else
               (case visitBlock li inRegion f block rest ix of
                  Inl e \<Rightarrow> Inl e
                | Inr (stack1, ix1) \<Rightarrow> Inr (stack1, pushedLoops, ix1))))"

text \<open>The loop over the stack.  A run that does not end has the value \<open>None\<close>.\<close>

partial_function (option) indexBlocks ::
  "loopinfo \<Rightarrow> (bid \<Rightarrow> bool) \<Rightarrow> func \<Rightarrow> bid list \<Rightarrow> lid set \<Rightarrow> blockindex
     \<Rightarrow> (error + (lid set \<times> blockindex)) option" where
  "indexBlocks li inRegion f stack pushedLoops ix =
     (case stack of
        [] \<Rightarrow> Some (Inr (pushedLoops, ix))
      | block # rest \<Rightarrow>
          (case indexStep li inRegion f block rest pushedLoops ix of
             Inl e \<Rightarrow> Some (Inl e)
           | Inr (stack1, pushed1, ix1) \<Rightarrow> indexBlocks li inRegion f stack1 pushed1 ix1))"

declare indexBlocks.simps [code]

text \<open>The loop over the blocks of the function, which seeks the blocks without an index.\<close>

fun seekBlocks ::
  "loopinfo \<Rightarrow> (bid \<Rightarrow> bool) \<Rightarrow> func \<Rightarrow> bid list \<Rightarrow> lid set \<Rightarrow> blockindex
     \<Rightarrow> (error + (lid set \<times> blockindex)) option" where
  "seekBlocks li inRegion f [] pushedLoops ix = Some (Inr (pushedLoops, ix))"
| "seekBlocks li inRegion f (block # rest) pushedLoops ix =
     (if \<not> inRegion block then seekBlocks li inRegion f rest pushedLoops ix
      else if blockIndex ix block \<noteq> None then seekBlocks li inRegion f rest pushedLoops ix
      else
        (case indexBlocks li inRegion f [block] pushedLoops ix of
           None \<Rightarrow> None
         | Some (Inl e) \<Rightarrow> Some (Inl e)
         | Some (Inr (pushed1, ix1)) \<Rightarrow> seekBlocks li inRegion f rest pushed1 ix1))"

definition emptyIndex :: blockindex where
  "emptyIndex = \<lparr>indexed = [], blockIndex = Map.empty\<rparr>"

definition buildBlockIndex ::
  "loopinfo \<Rightarrow> (bid \<Rightarrow> bool) \<Rightarrow> func \<Rightarrow> (error + blockindex) option" where
  "buildBlockIndex li inRegion f =
     (case seekBlocks li inRegion f (blockList f) {} emptyIndex of
        None \<Rightarrow> None
      | Some (Inl e) \<Rightarrow> Some (Inl e)
      | Some (Inr (pushedLoops, ix)) \<Rightarrow> Some (Inr ix))"

section \<open>Linearizer::verifyLoopIndex and verifyBlockIndex\<close>

text \<open>
  \<open>verifyLoopIndex\<close> descends into the sub-loops; the model bounds the descent by
  \<open>fuel\<close>, and a descent that is cut off has the value \<open>None\<close>.
\<close>

fun verifyRange :: "blockindex \<Rightarrow> loop \<Rightarrow> int list \<Rightarrow> error + unit" where
  "verifyRange ix L [] = Inr ()"
| "verifyRange ix L (i # is) =
     (case getBlock ix i of
        Inl e \<Rightarrow> Inl e
      | Inr b \<Rightarrow>
          if \<not> contains L b then Inl (AssertFailed ''non-loop block in topo range of loop'')
          else verifyRange ix L is)"

definition verifyOneLoop :: "func \<Rightarrow> blockindex \<Rightarrow> loop \<Rightarrow> error + unit" where
  "verifyOneLoop f ix L =
     (let startId = fold (\<lambda>block startId. min (getIndex ix block) startId) (loopBlocks L)
                      (int (getNumBlocks ix));
          endId = fold (\<lambda>block endId. max (getIndex ix block) endId) (loopBlocks L) 0
      in case verifyRange ix L [startId .. endId] of
           Inl e \<Rightarrow> Inl e
         | Inr u \<Rightarrow>
             if startId \<noteq> getIndex ix (header L)
             then Inl (AssertFailed ''startId == getIndex(*loop.getHeader())'')
             else
               (case getLoopLatch f L of
                  None \<Rightarrow> Inl NullDeref
                | Some latch \<Rightarrow>
                    if endId \<noteq> getIndex ix latch
                    then Inl (AssertFailed ''endId == getIndex(*loop.getLoopLatch())'')
                    else Inr ()))"

fun verifyLoopIndex :: "nat \<Rightarrow> loopinfo \<Rightarrow> func \<Rightarrow> blockindex \<Rightarrow> lid \<Rightarrow> (error + unit) option"
  and verifyLoops :: "nat \<Rightarrow> loopinfo \<Rightarrow> func \<Rightarrow> blockindex \<Rightarrow> lid list \<Rightarrow> (error + unit) option"
  where
  "verifyLoopIndex 0 li f ix l = None"
| "verifyLoopIndex (Suc fuel) li f ix l =
     (case verifyLoops fuel li f ix (subLoops (loops li l)) of
        None \<Rightarrow> None
      | Some (Inl e) \<Rightarrow> Some (Inl e)
      | Some (Inr u) \<Rightarrow> Some (verifyOneLoop f ix (loops li l)))"
| "verifyLoops fuel li f ix [] = Some (Inr ())"
| "verifyLoops fuel li f ix (l # ls) =
     (case verifyLoopIndex fuel li f ix l of
        None \<Rightarrow> None
      | Some (Inl e) \<Rightarrow> Some (Inl e)
      | Some (Inr u) \<Rightarrow> verifyLoops fuel li f ix ls)"

definition verifyBlockIndex :: "nat \<Rightarrow> loopinfo \<Rightarrow> func \<Rightarrow> blockindex \<Rightarrow> (error + unit) option" where
  "verifyBlockIndex fuel li f ix = verifyLoops fuel li f ix (topLevelLoops li)"

section \<open>The dominator tree: nodes and common dominators\<close>

text \<open>
  A block has a node in the dominator tree when it has an immediate dominator or is the
  entry block of the function.  The nearest common dominator of two blocks is the first
  block on the way from the second to the root that is on the way from the first to the
  root; the ways are bounded by the number of blocks.
\<close>

definition hasNode :: "'r lstate \<Rightarrow> bid \<Rightarrow> bool" where
  "hasNode s b =
     (l_dt s b \<noteq> None \<or> (case blockList (l_fn s) of [] \<Rightarrow> False | entry # bs \<Rightarrow> b = entry))"

fun dom_chain :: "(bid \<rightharpoonup> bid) \<Rightarrow> nat \<Rightarrow> bid \<Rightarrow> bid list" where
  "dom_chain idom 0 b = [b]"
| "dom_chain idom (Suc n) b = b # (case idom b of None \<Rightarrow> [] | Some p \<Rightarrow> dom_chain idom n p)"

definition findNearestCommonDominator :: "'r lstate \<Rightarrow> bid \<Rightarrow> bid \<Rightarrow> bid option" where
  "findNearestCommonDominator s a b =
     find (\<lambda>x. x \<in> set (dom_chain (l_dt s) (length (blockList (l_fn s))) a))
       (dom_chain (l_dt s) (length (blockList (l_fn s))) b)"

fun commonDom :: "'r lstate \<Rightarrow> bid option \<Rightarrow> bid list \<Rightarrow> error + bid option" where
  "commonDom s commonDomBlock [] = Inr commonDomBlock"
| "commonDom s commonDomBlock (predBlock # ps) =
     (case commonDomBlock of
        None \<Rightarrow> commonDom s (Some predBlock) ps
      | Some d \<Rightarrow>
          (case findNearestCommonDominator s d predBlock of
             None \<Rightarrow> Inl (AssertFailed ''domtree repair: did not reach a common dom node!'')
           | Some d1 \<Rightarrow> commonDom s (Some d1) ps))"

section \<open>Linearizer::emitBlock\<close>

text \<open>
  The uses of the relay block are successor operands of terminators; each user is cast to
  a branch and the operand is set to the target.  \<open>usersOf\<close> lists the instructions of the
  function that have the block as a successor.
\<close>

fun isBranch :: "instr \<Rightarrow> bool" where
  "isBranch (Br t) = True"
| "isBranch (CondBr c t e) = True"
| "isBranch i = False"

fun redirect :: "bid \<Rightarrow> bid \<Rightarrow> instr \<Rightarrow> instr" where
  "redirect old new (Br t) = Br (if t = old then new else t)"
| "redirect old new (CondBr c t e) =
     CondBr c (if t = old then new else t) (if e = old then new else e)"
| "redirect old new i = i"

definition usersOf :: "func \<Rightarrow> bid \<Rightarrow> iid list" where
  "usersOf f b = filter (\<lambda>i. b \<in> set (successors (instr f i))) (concat (map (body f) (blockList f)))"

text \<open>
  The instructions of the relay block before its first terminator are moved to the front of
  the target, one after the other (the first one ends behind the others); then the relay
  block is erased.  When the relay block is the target itself and starts with such an
  instruction, the loop that moves the instructions does not end.
\<close>

definition moveToFront :: "func \<Rightarrow> bid \<Rightarrow> bid \<Rightarrow> func" where
  "moveToFront f relayBlock target =
     f\<lparr>body := (body f)
         (relayBlock := dropWhile (\<lambda>i. \<not> isTerminator (instr f i)) (body f relayBlock),
          target := rev (takeWhile (\<lambda>i. \<not> isTerminator (instr f i)) (body f relayBlock))
                    @ body f target)\<rparr>"

definition eraseBlock :: "func \<Rightarrow> bid \<Rightarrow> func" where
  "eraseBlock f b = f\<lparr>blockList := removeAll b (blockList f), body := (body f)(b := [])\<rparr>"

definition emitBlock ::
  "'r externals \<Rightarrow> blockindex \<Rightarrow> 'r lstate \<Rightarrow> int \<Rightarrow> (error + (RelayNode option \<times> 'r lstate)) option" where
  "emitBlock X ix s targetId =
     (case getBlock ix targetId of
        Inl e \<Rightarrow> Some (Inl e)
      | Inr target \<Rightarrow>
          (case advanceScheduleHead X s targetId of
             ((advancedRelay, relayBlockPtr), s1) \<Rightarrow>
               (case relayBlockPtr of
                  None \<Rightarrow> Some (Inr (None, s1))
                | Some relayBlock \<Rightarrow>
                    if \<not> hasNode s1 target then Some (Inl (AssertFailed ''targetDom''))
                    else if list_ex (\<lambda>i. \<not> isBranch (instr (l_fn s1) i)) (usersOf (l_fn s1) relayBlock)
                    then Some (Inl NullPointerCast)
                    else
                      (let s2 = s1\<lparr>l_fn := (l_fn s1)\<lparr>instr :=
                                   (\<lambda>i. redirect relayBlock target (instr (l_fn s1) i))\<rparr>\<rparr>
                       in case commonDom s2 None (predecessors (l_fn s2) target) of
                            Inl e \<Rightarrow> Some (Inl e)
                          | Inr None \<Rightarrow> Some (Inl (AssertFailed ''nextCommonDom''))
                          | Inr (Some commonDomBlock) \<Rightarrow>
                              if \<not> hasNode s2 commonDomBlock
                              then Some (Inl (AssertFailed ''nextCommonDom''))
                              else if relayBlock = target
                                      \<and> takeWhile (\<lambda>i. \<not> isTerminator (instr (l_fn s2) i))
                                          (body (l_fn s2) relayBlock) \<noteq> []
                              then None
                              else Some (Inr (advancedRelay,
                                     s2\<lparr>l_dt := (l_dt s2)(target \<mapsto> commonDomBlock),
                                        l_fn := eraseBlock (moveToFront (l_fn s2) relayBlock target)
                                                  relayBlock\<rparr>))))))"

section \<open>Linearizer::addUndefInputs\<close>

text \<open>
  Every PHI node at the start of the block gets an undef for each predecessor it does not
  know.  The loop reads the instruction before it tests for the end of the block: a block
  of PHI nodes only (or an empty one) is an error of the model.
\<close>

fun addUndefInputs_phi :: "func \<Rightarrow> iid \<Rightarrow> bid list \<Rightarrow> func" where
  "addUndefInputs_phi f phi [] = f"
| "addUndefInputs_phi f phi (predBlock # ps) =
     (if getBasicBlockIndex f phi predBlock \<ge> 0 then addUndefInputs_phi f phi ps
      else addUndefInputs_phi (addIncoming f phi Undef predBlock) phi ps)"

definition addUndefInputs :: "func \<Rightarrow> bid \<Rightarrow> error + func" where
  "addUndefInputs f block =
     (if nonPhis f block = [] then Inl (OutOfBounds ''block'')
      else Inr (fold (\<lambda>phi f1. addUndefInputs_phi f1 phi (predecessors f1 block)) (phis f block) f))"

section \<open>Linearizer::processBranch\<close>

definition setSuccessor :: "func \<Rightarrow> iid \<Rightarrow> nat \<Rightarrow> bid \<Rightarrow> func" where
  "setSuccessor f br i b =
     f\<lparr>instr := (instr f)(br :=
         (case instr f br of
            Br t \<Rightarrow> if i = 0 then Br b else Br t
          | CondBr c t e \<Rightarrow> if i = 0 then CondBr c b e else if i = 1 then CondBr c t b else CondBr c t e
          | other \<Rightarrow> other))\<rparr>"

text \<open>The unconditional branch: the successor is scheduled and the branch goes to its relay block.\<close>

definition processUnconditional ::
  "'r externals \<Rightarrow> blockindex \<Rightarrow> 'r lstate \<Rightarrow> bid \<Rightarrow> iid \<Rightarrow> bid \<Rightarrow> RelayNode option \<Rightarrow> 'r lstate" where
  "processUnconditional X ix s head branch succ0 exitRelay =
     (case addTargetToRelay X s exitRelay (getIndex ix succ0) of
        (relay, s1) \<Rightarrow>
          s1\<lparr>l_em := setEdgeMask (l_em s1) head succ0 (getExitMask (l_ma s1) head 0),
             l_fn := setSuccessor (l_fn s1) branch 0 (rn_block relay)\<rparr>)"

text \<open>
  The conditional branch.  \<open>firstSuccIdx\<close> is the index of the successor with the smaller
  topological index.  A branch that must be folded gets the relay block of the chain
  ``first, then second'' as both successors.  At the end the branch gets the shape
  uniform.
\<close>

definition processConditional ::
  "'r externals \<Rightarrow> blockindex \<Rightarrow> 'r lstate \<Rightarrow> bid \<Rightarrow> iid \<Rightarrow> bid \<Rightarrow> bid \<Rightarrow> RelayNode option
     \<Rightarrow> error + 'r lstate" where
  "processConditional X ix s head branch succ0 succ1 exitRelay =
     (case needsFolding (l_vi s) (l_fn s) branch of
        Inl e \<Rightarrow> Inl e
      | Inr mustFoldBranch \<Rightarrow>
          (let swapped = (getIndex ix succ0 > getIndex ix succ1);
               firstSuccIdx = (if swapped then 1 else 0);
               secondSuccIdx = (if swapped then 0 else 1);
               firstBlock = (if swapped then succ1 else succ0);
               secondBlock = (if swapped then succ0 else succ1);
               firstId = getIndex ix firstBlock;
               secondId = getIndex ix secondBlock
           in if \<not> (firstId > 0 \<and> secondId > 0) then Inl (AssertFailed ''branch leaves the region!'')
              else
                (let sa = s\<lparr>l_em := setEdgeMask
                                      (setEdgeMask (l_em s) head firstBlock
                                         (getExitMask (l_ma s) head firstSuccIdx))
                                      head secondBlock (getExitMask (l_ma s) head secondSuccIdx)\<rparr>
                 in case addTargetToRelay X sa exitRelay firstId of
                      (firstRelay0, sb) \<Rightarrow>
                        (case (if mustFoldBranch
                               then (case addTargetToRelay X sb (Some firstRelay0) secondId of
                                       (firstRelay1, sc) \<Rightarrow>
                                         (firstRelay1,
                                          sc\<lparr>l_fn := setSuccessor (l_fn sc) branch secondSuccIdx
                                                       (rn_block firstRelay1)\<rparr>))
                               else (firstRelay0, sb)) of
                           (firstRelay, sd) \<Rightarrow>
                             (let se = sd\<lparr>l_fn := setSuccessor (l_fn sd) branch firstSuccIdx
                                                    (rn_block firstRelay)\<rparr>
                              in if dominates se head secondBlock \<and> getRelay X se secondId = None
                                    \<and> \<not> hasNode se firstBlock
                                 then Inl (AssertFailed ''firstDom'')
                                 else if dominates se head secondBlock \<and> getRelay X se secondId = None
                                    \<and> \<not> hasNode se secondBlock
                                 then Inl NullDeref
                                 else
                                   (let sf = (if dominates se head secondBlock
                                                 \<and> getRelay X se secondId = None
                                              then se\<lparr>l_dt := (l_dt se)(secondBlock \<mapsto> firstBlock)\<rparr>
                                              else se)
                                    in case addTargetToRelay X sf exitRelay secondId of
                                         (secondRelay, sg) \<Rightarrow>
                                           (let sh = (if \<not> mustFoldBranch
                                                      then sg\<lparr>l_fn := setSuccessor (l_fn sg) branch
                                                                secondSuccIdx (rn_block secondRelay)\<rparr>
                                                      else sg)
                                            in Inr (sh\<lparr>l_vi := setVectorShape (l_vi sh) (Inst branch)
                                                                (uni 1)\<rparr>))))))))"

text \<open>
  \<open>processBranch\<close>: nothing is done for a terminator without successors; a terminator with
  successors that is no branch is read through a null pointer.
\<close>

definition processBranch ::
  "'r externals \<Rightarrow> blockindex \<Rightarrow> 'r lstate \<Rightarrow> bid \<Rightarrow> RelayNode option \<Rightarrow> error + 'r lstate" where
  "processBranch X ix s head exitRelay =
     (case getTerminator (l_fn s) head of
        None \<Rightarrow> Inl NullDeref
      | Some tm \<Rightarrow>
          if successors (instr (l_fn s) tm) = [] then Inr s
          else
            (case instr (l_fn s) tm of
               Br succ0 \<Rightarrow> Inr (processUnconditional X ix s head tm succ0 exitRelay)
             | CondBr c succ0 succ1 \<Rightarrow> processConditional X ix s head tm succ0 succ1 exitRelay
             | _ \<Rightarrow> Inl NullDeref))"

section \<open>Linearizer::processBlock, processLoop and processRange\<close>

text \<open>\<open>foldPhis\<close> on the state of the linearizer.\<close>

definition foldPhisOf :: "'r externals \<Rightarrow> 'r lstate \<Rightarrow> bid \<Rightarrow> error + 'r lstate" where
  "foldPhisOf X s block =
     (case foldPhis (x_foldSelect X) (l_em s) (l_fn s, l_vi s) block of
        Inl e \<Rightarrow> Inl e
      | Inr (f1, vi1) \<Rightarrow> Inr (s\<lparr>l_fn := f1, l_vi := vi1\<rparr>))"

text \<open>The part of \<open>processBlock\<close> for a block of the parent loop: emit, fold, branch.\<close>

definition processPlain ::
  "'r externals \<Rightarrow> blockindex \<Rightarrow> 'r lstate \<Rightarrow> int \<Rightarrow> bid \<Rightarrow> (error + (int \<times> 'r lstate)) option" where
  "processPlain X ix s headId head =
     (case emitBlock X ix s headId of
        None \<Rightarrow> None
      | Some (Inl e) \<Rightarrow> Some (Inl e)
      | Some (Inr (advancedExitRelay, s1)) \<Rightarrow>
          (case foldPhisOf X s1 head of
             Inl e \<Rightarrow> Some (Inl e)
           | Inr s2 \<Rightarrow>
               (case processBranch X ix s2 head advancedExitRelay of
                  Inl e \<Rightarrow> Some (Inl e)
                | Inr s3 \<Rightarrow> Some (Inr (headId + 1, s3)))))"

text \<open>
  The start of \<open>processLoop\<close>: the assertions, the latch, and the conversion of a divergent
  loop.  It returns the latch and the header.
\<close>

definition enterProcessLoop ::
  "'r externals \<Rightarrow> loopinfo \<Rightarrow> blockindex \<Rightarrow> 'r lstate \<Rightarrow> int \<Rightarrow> lid option
     \<Rightarrow> (error + (bid \<times> bid \<times> 'r lstate)) option" where
  "enterProcessLoop X li ix s headId loopPtr =
     (case getBlock ix headId of
        Inl e \<Rightarrow> Some (Inl e)
      | Inr loopHead \<Rightarrow>
          (case loopPtr of
             None \<Rightarrow> Some (Inl (AssertFailed ''not actually part of a loop''))
           | Some l \<Rightarrow>
               if header (loops li l) \<noteq> loopHead
               then Some (Inl (AssertFailed ''not actually the header of the loop''))
               else
                 (case getLoopLatch (l_fn s) (loops li l) of
                    None \<Rightarrow> Some (Inl NullDeref)
                  | Some latch \<Rightarrow>
                      if isDivergentLoop (l_vi s) l then
                        (case convertToSingleExitLoop X li ix s l
                                (case getRelay X s headId of
                                   None \<Rightarrow> None
                                 | Some exitRelay \<Rightarrow> rn_next exitRelay) of
                           None \<Rightarrow> None
                         | Some (Inl e) \<Rightarrow> Some (Inl e)
                         | Some (Inr (relay, s1)) \<Rightarrow> Some (Inr (latch, loopHead, s1)))
                      else Some (Inr (latch, loopHead, s)))))"

text \<open>
  The end of \<open>processLoop\<close>: the latch is emitted and its PHI nodes are folded, the header is
  emitted again and gets undef inputs.
\<close>

definition leaveProcessLoop ::
  "'r externals \<Rightarrow> blockindex \<Rightarrow> 'r lstate \<Rightarrow> bid \<Rightarrow> bid \<Rightarrow> (error + 'r lstate) option" where
  "leaveProcessLoop X ix s latch loopHead =
     (case emitBlock X ix s (getIndex ix latch) of
        None \<Rightarrow> None
      | Some (Inl e) \<Rightarrow> Some (Inl e)
      | Some (Inr (r1, s1)) \<Rightarrow>
          (case foldPhisOf X s1 latch of
             Inl e \<Rightarrow> Some (Inl e)
           | Inr s2 \<Rightarrow>
               (case emitBlock X ix s2 (getIndex ix loopHead) of
                  None \<Rightarrow> None
                | Some (Inl e) \<Rightarrow> Some (Inl e)
                | Some (Inr (r3, s3)) \<Rightarrow>
                    (case addUndefInputs (l_fn s3) loopHead of
                       Inl e \<Rightarrow> Some (Inl e)
                     | Inr f4 \<Rightarrow> Some (Inr (s3\<lparr>l_fn := f4\<rparr>))))))"

text \<open>
  The three functions call each other; the model bounds the depth of the calls and the
  number of rounds of the loop of \<open>processRange\<close> by \<open>fuel\<close>.  A run that is cut off, or
  that does not end, has the value \<open>None\<close>.
\<close>

function (sequential) processRange ::
    "nat \<Rightarrow> 'r externals \<Rightarrow> loopinfo \<Rightarrow> blockindex \<Rightarrow> 'r lstate \<Rightarrow> int \<Rightarrow> int \<Rightarrow> lid option
       \<Rightarrow> (error + (int \<times> 'r lstate)) option"
  and processBlock ::
    "nat \<Rightarrow> 'r externals \<Rightarrow> loopinfo \<Rightarrow> blockindex \<Rightarrow> 'r lstate \<Rightarrow> int \<Rightarrow> lid option
       \<Rightarrow> (error + (int \<times> 'r lstate)) option"
  and processLoop ::
    "nat \<Rightarrow> 'r externals \<Rightarrow> loopinfo \<Rightarrow> blockindex \<Rightarrow> 'r lstate \<Rightarrow> int \<Rightarrow> lid option
       \<Rightarrow> (error + (int \<times> 'r lstate)) option"
  where
  "processRange 0 X li ix s i endId parent = None"
| "processRange (Suc fuel) X li ix s i endId parent =
     (if \<not> i < endId then Some (Inr (endId, s))
      else
        (case getBlock ix i of
           Inl e \<Rightarrow> Some (Inl e)
         | Inr b \<Rightarrow>
             if \<not> (case parent of None \<Rightarrow> True | Some l \<Rightarrow> contains (loops li l) b)
             then Some (Inl (AssertFailed ''!parentLoop || parentLoop->contains(&getBlock(i))''))
             else
               (case processBlock fuel X li ix s i parent of
                  None \<Rightarrow> None
                | Some (Inl e) \<Rightarrow> Some (Inl e)
                | Some (Inr (j, s1)) \<Rightarrow> processRange fuel X li ix s1 j endId parent)))"
| "processBlock 0 X li ix s headId parent = None"
| "processBlock (Suc fuel) X li ix s headId parent =
     (case getBlock ix headId of
        Inl e \<Rightarrow> Some (Inl e)
      | Inr head \<Rightarrow>
          if loopFor li head \<noteq> parent
          then processLoop fuel X li ix s headId (loopFor li head)
          else processPlain X ix s headId head)"
| "processLoop 0 X li ix s headId loopPtr = None"
| "processLoop (Suc fuel) X li ix s headId loopPtr =
     (case enterProcessLoop X li ix s headId loopPtr of
        None \<Rightarrow> None
      | Some (Inl e) \<Rightarrow> Some (Inl e)
      | Some (Inr (latch, loopHead, s1)) \<Rightarrow>
          (case processRange fuel X li ix s1 (getIndex ix loopHead) (getIndex ix latch) loopPtr of
             None \<Rightarrow> None
           | Some (Inl e) \<Rightarrow> Some (Inl e)
           | Some (Inr (latchNodeId, s2)) \<Rightarrow>
               (case leaveProcessLoop X ix s2 latch loopHead of
                  None \<Rightarrow> None
                | Some (Inl e) \<Rightarrow> Some (Inl e)
                | Some (Inr s3) \<Rightarrow> Some (Inr (latchNodeId + 1, s3)))))"
  by pat_completeness auto

termination
  by (relation "measure (\<lambda>x. case x of Inl p \<Rightarrow> fst p | Inr (Inl p) \<Rightarrow> fst p | Inr (Inr p) \<Rightarrow> fst p)") auto

section \<open>Linearizer::linearizeControl, cleanup and run\<close>

definition linearizeControl ::
  "nat \<Rightarrow> 'r externals \<Rightarrow> loopinfo \<Rightarrow> blockindex \<Rightarrow> 'r lstate \<Rightarrow> (error + 'r lstate) option" where
  "linearizeControl fuel X li ix s =
     (case processRange fuel X li ix s 0 (int (getNumBlocks ix)) None of
        None \<Rightarrow> None
      | Some (Inl e) \<Rightarrow> Some (Inl e)
      | Some (Inr (lastId, s1)) \<Rightarrow>
          if lastId \<noteq> int (getNumBlocks ix) then Some (Inl (AssertFailed ''lastId == getNumBlocks()''))
          else Some (Inr s1))"

text \<open>
  \<open>cleanup\<close>: a terminator with several successors that are all the same block is replaced
  by an unconditional branch to that block, which gets the shape uniform.
\<close>

definition cleanupBlock :: "func \<times> vecinfo \<Rightarrow> bid \<Rightarrow> func \<times> vecinfo" where
  "cleanupBlock s block =
     (case s of
        (f, vi) \<Rightarrow>
          (case getTerminator f block of
             None \<Rightarrow> (f, vi)
           | Some tm \<Rightarrow>
               (case successors (instr f tm) of
                  [] \<Rightarrow> (f, vi)
                | singleSucc # rest \<Rightarrow>
                    if rest = [] then (f, vi)
                    else if list_ex (\<lambda>x. x \<noteq> singleSucc) rest then (f, vi)
                    else
                      (case replaceTerminator f block (Br singleSucc) of
                         (simpleBranch, f1) \<Rightarrow>
                           (f1, dropVectorShape (setVectorShape vi (Inst simpleBranch) (uni 1))
                                  (Inst tm))))))"

definition cleanup :: "'r lstate \<Rightarrow> 'r lstate" where
  "cleanup s =
     (case fold (\<lambda>block st. cleanupBlock st block) (blockList (l_fn s)) (l_fn s, l_vi s) of
        (f1, vi1) \<Rightarrow> s\<lparr>l_fn := f1, l_vi := vi1\<rparr>)"

text \<open>
  \<open>run\<close> returns the block index it has built and the state.  \<open>verify()\<close> is compiled into
  debug builds only and is not part of the model.
\<close>

definition run ::
  "nat \<Rightarrow> 'r externals \<Rightarrow> loopinfo \<Rightarrow> (bid \<Rightarrow> bool) \<Rightarrow> 'r lstate
     \<Rightarrow> (error + (blockindex \<times> 'r lstate)) option" where
  "run fuel X li inRegion s =
     (case buildBlockIndex li inRegion (l_fn s) of
        None \<Rightarrow> None
      | Some (Inl e) \<Rightarrow> Some (Inl e)
      | Some (Inr ix) \<Rightarrow>
          (case verifyBlockIndex fuel li (l_fn s) ix of
             None \<Rightarrow> None
           | Some (Inl e) \<Rightarrow> Some (Inl e)
           | Some (Inr u) \<Rightarrow>
               if getNumBlocks ix \<le> 1 then Some (Inr (ix, s))
               else
                 (case linearizeControl fuel X li ix s of
                    None \<Rightarrow> None
                  | Some (Inl e) \<Rightarrow> Some (Inl e)
                  | Some (Inr s1) \<Rightarrow> Some (Inr (ix, cleanup s1)))))"

section \<open>Concrete regions\<close>

text \<open>
  A loop with a kill exit.  Block 0 is the pre-header, block 1 the header, which defines
  the value \<open>Inst 10\<close> and branches to the latch (block 2) or leaves the loop to block 3;
  the latch branches back to the header.  Block 3 holds the closed-SSA PHI node
  \<open>Inst 30\<close> for \<open>Inst 10\<close>.  Block 3 is not mandatory, and the combined exit mask of the loop is
  \<open>Arg 1\<close>.
\<close>

definition kill_fn :: func where
  "kill_fn =
     \<lparr>blockList = [0, 1, 2, 3],
      body = (\<lambda>b. if b = 0 then [0] else if b = 1 then [10, 11] else if b = 2 then [20]
                  else if b = 3 then [30, 31] else []),
      instr = (\<lambda>i. if i = 0 then Br 1 else if i = 10 then Op [] else if i = 11 then CondBr (Arg 0) 2 3
                  else if i = 20 then Br 1 else if i = 30 then PHI [(Inst 10, 1)]
                  else if i = 31 then Ret (Some (Inst 30)) else Unreachable),
      nextInst = 40, nextBlock = 4\<rparr>"

definition kill_loop :: loop where
  "kill_loop = \<lparr>header = 1, loopBlocks = [1, 2], parentLoop = None, subLoops = []\<rparr>"

definition kill_ctx :: tracker_ctx where
  "kill_ctx = \<lparr>tr_loopId = 0, tr_loop = kill_loop, tr_preHeader = 0\<rparr>"

definition kill_vi :: vecinfo where
  "kill_vi = \<lparr>shapes = Map.empty, pinned = {}, divergentLoops = {0}, mandatory = {}\<rparr>"

definition kill_ma :: maskinfo where
  "kill_ma = \<lparr>getExitMask = (\<lambda>b i. None), getExitMaskTo = (\<lambda>b t. None),
              getCombinedLoopExitMask = (\<lambda>l. Some (Arg 1))\<rparr>"

text \<open>
  A straight line of three blocks: block 0 defines the value \<open>Inst 0\<close> and branches to
  block 1, block 1 branches to block 2, block 2 returns.  The blocks are indexed in this
  order.
\<close>

definition line_fn :: func where
  "line_fn =
     \<lparr>blockList = [0, 1, 2],
      body = (\<lambda>b. if b = 0 then [0, 1] else if b = 1 then [2] else if b = 2 then [3] else []),
      instr = (\<lambda>i. if i = 0 then Op [] else if i = 1 then Br 1 else if i = 2 then Br 2
                  else Ret None),
      nextInst = 4, nextBlock = 3\<rparr>"

definition line_ix :: blockindex where
  "line_ix =
     addToBlockIndex (addToBlockIndex (addToBlockIndex \<lparr>indexed = [], blockIndex = Map.empty\<rparr> 0) 1) 2"

definition kill_t0 :: tstate where
  "kill_t0 = \<lparr>ts_live = Map.empty, ts_fn = kill_fn, ts_vi = kill_vi\<rparr>"

text \<open>The state after the tracker of \<open>Inst 10\<close> has been requested in \<open>kill_t0\<close>.\<close>

definition kill_t1 :: tstate where
  "kill_t1 = (case requestTracker kill_ctx kill_t0 10 of Inr (p, t) \<Rightarrow> t | Inl e \<Rightarrow> kill_t0)"

text \<open>
  A linearized if-then-else.  Block 0 branched on a varying condition to block 1 (then) or
  block 2 (else), which both went on to block 3; after linearization the blocks follow each
  other, \<open>0 \<rightarrow> 1 \<rightarrow> 2 \<rightarrow> 3 \<rightarrow> 4\<close>.  Block 3 has the PHI node \<open>Inst 30\<close> with an incoming value from
  block 1, which is no predecessor any more; block 4 has the PHI node \<open>Inst 35\<close> for its only
  predecessor.  The mask of the edge from block 2 to block 3 is \<open>Arg 0\<close>.
\<close>

definition ite_fn :: func where
  "ite_fn =
     \<lparr>blockList = [0, 1, 2, 3, 4],
      body = (\<lambda>b. if b = 0 then [1] else if b = 1 then [10, 11] else if b = 2 then [20, 21]
                  else if b = 3 then [30, 31, 32] else if b = 4 then [35, 36] else []),
      instr = (\<lambda>i. if i = 1 then Br 1 else if i = 10 then Op [] else if i = 11 then Br 2
                  else if i = 20 then Op [] else if i = 21 then Br 3
                  else if i = 30 then PHI [(Inst 10, 1), (Inst 20, 2)]
                  else if i = 31 then Op [Inst 30] else if i = 32 then Br 4
                  else if i = 35 then PHI [(Inst 31, 3)]
                  else if i = 36 then Ret (Some (Inst 35)) else Unreachable),
      nextInst = 40, nextBlock = 5\<rparr>"

definition ite_vi :: vecinfo where
  "ite_vi = \<lparr>shapes = [Inst 30 \<mapsto> Varying 1], pinned = {}, divergentLoops = {}, mandatory = {}\<rparr>"

definition ite_em :: edgemasks where
  "ite_em = [(2, 3) \<mapsto> Arg 0]"

text \<open>
  Variants of the block 3 of \<open>ite_fn\<close>: with a second PHI node; with a first PHI node
  that knows the only predecessor, before the PHI node that does not; and with constants as
  incoming values and as the edge mask.
\<close>

definition ite2_fn :: func where
  "ite2_fn = ite_fn\<lparr>body := (body ite_fn)(3 := [30, 33, 31, 32]),
                    instr := (instr ite_fn)(33 := PHI [(Arg 5, 1), (Arg 6, 2)])\<rparr>"

definition skip_fn :: func where
  "skip_fn = ite_fn\<lparr>body := (body ite_fn)(3 := [34, 30, 31, 32]),
                    instr := (instr ite_fn)(34 := PHI [(Arg 5, 2)])\<rparr>"

definition const_fn :: func where
  "const_fn = ite_fn\<lparr>instr := (instr ite_fn)(30 := PHI [(ConstInt 32 1, 1), (ConstInt 32 2, 2)])\<rparr>"

definition const_em :: edgemasks where
  "const_em = [(2, 3) \<mapsto> ConstInt 1 1]"

















section \<open>Collections of defining equations\<close>

lemmas ir_defs = getTerminator_def succ_blocks_def predecessors_def getParent_def phis_def nonPhis_def
  insertAtFirstInsertionPt_def insertBeforeTerminator_def addIncoming_def incoming_def
  getBasicBlockIndex_def getIncomingValue_def getIncomingBlock_def setIncomingValue_def
  contains_def containsInst_def getLoopLatch_def

lemmas index_defs = addToBlockIndex_def getBlock_def getIndex_def getNumBlocks_def

lemmas promote_defs = promoteDefinition_def reaching_inVal_def defs_read_def defs_write_def

lemmas tracker_defs = getLoopBlockIndex_def requestTracker_def addTrackerUpdate_def
  getLastTrackerState_def getTrackerStateForLiveOut_def getExitingBlock_def
  trackLiveOut_phi_def trackLiveOuts_def asInstruction_def replaceUsesOutsideLoop_def
  setVectorShape_def getVectorShape_def isMandatory_def varying_def

lemmas kill_defs = kill_fn_def kill_loop_def kill_ctx_def kill_vi_def kill_ma_def kill_t0_def


lemmas ite_defs = ite_fn_def ite_vi_def ite_em_def ite2_fn_def skip_fn_def const_fn_def const_em_def





section \<open>Properties of Mask\<close>

text \<open>
  C10 (the claim: knownAllFalse returns true for every mask whose predicate is a constant
  all-zero value, also for the mask inferFromPredicate builds from the i1 constant false,
  which has no active vector length).  The code at that mask: the predicate test casts the
  active vector length, which is null, so the call fails in the cast and does not return
  true.  With a non-null constant active vector length of 8 lanes and the same predicate
  the call returns false.
\<close>

theorem knownAllFalse_const_false_pred:
  "inferFromPredicate allTrue (ConstInt 1 0)
     = \<lparr>Predicate = Some (ConstInt 1 0), ActiveVectorLength = None\<rparr>
   \<and> knownAllFalse (inferFromPredicate allTrue (ConstInt 1 0)) = Inl NullPointerCast
   \<and> knownAllFalse \<lparr>Predicate = Some (ConstInt 1 0), ActiveVectorLength = Some (ConstInt 32 8)\<rparr>
       = Inr False"
  by (simp add: inferFromPredicate_def knownAllFalse_def knownAllFalse_pred_def
      dyn_cast_def getPred_def getAVL_def)

section \<open>Properties of the shape decoder\<close>

lemmas stream_defs = sstream_of_def sget_def unget_def readNumber_def extract_unsigned_def
  decodeAlignment_def decodeShape_def isspace_def isdigit_def digit_val_def decimal_def
  UINT_MAX_def undef_def uni_def cont_def varying_def strided_def

text \<open>
  C9 (the claim: decodeShape follows the grammar in which the alignment suffix comes after
  the stride digits, so that \<open>S<k>a<n>\<close> decodes to Strided(k) with alignment n).  The code
  on \<open>S4a8\<close>: the alignment is looked for between \<open>S\<close> and the digits, is not there and is
  taken to be 1; the stride 4 is read, and \<open>a8\<close> stays unread in the stream.  The result is
  Strided(4) with alignment 1.
\<close>

theorem decodeShape_strided_alignment_unread:
  "decodeShape (sstream_of ''S4a8'')
     = Inr (Strided 4 1, \<lparr>consumed = ''4S'', remaining = ''a8'', failbit = False\<rparr>)"
  by (simp add: stream_defs)

section \<open>Properties of promoteDefinition\<close>

text \<open>
  C5 (the claim: for \<open>defBlockId < destBlockId\<close> the procedure keeps \<open>defs[0..span]\<close> with
  \<open>span = destBlockId - defBlockId\<close>, fills entries only for the blocks with index in
  \<open>[defBlockId, destBlockId]\<close>, stays within the bounds of \<open>defs\<close> and returns \<open>defs[span]\<close>).
  The code on the straight line of three blocks, promoting from block 0 to block 1: the
  vector has \<open>span = 2\<close> entries, the loop runs for \<open>i = 1\<close> and \<open>i = 2\<close>, visits block 2, which
  is outside of the range, and writes \<open>defs[2]\<close>, outside of the vector.
\<close>

theorem promoteDefinition_out_of_bounds:
  "promoteDefinition line_ix line_fn (Inst 0) 0 1 = Inl (OutOfBounds ''defs'')"
  by (simp add: promote_defs index_defs ir_defs line_ix_def line_fn_def upt_rec numeral_2_eq_2)

lemma promote_blocks_length:
  "promote_blocks ix d defs is f = Inr (defs', f') \<Longrightarrow> length defs' = length defs"
proof (induction "is" arbitrary: defs f)
  case Nil
  then show ?case by simp
next
  case (Cons i "is")
  then show ?case
    by (auto simp: Let_def defs_write_def split: sum.splits prod.splits if_splits)
qed

lemma promote_blocks_overrun:
  "length defs \<in> set is \<Longrightarrow> \<exists>e. promote_blocks ix d defs is f = Inl e"
proof (induction "is" arbitrary: defs f)
  case Nil
  then show ?case by simp
next
  case (Cons i "is")
  show ?case
  proof (cases "i = length defs")
    case True
    then show ?thesis
      by (auto simp: Let_def defs_write_def split: sum.splits prod.splits)
  next
    case False
    with Cons.prems have mem: "length defs \<in> set is" by simp
    show ?thesis
    proof (cases "getBlock ix (d + int i)")
      case (Inl e)
      then show ?thesis by (simp add: Let_def)
    next
      case (Inr block)
      show ?thesis
      proof (cases "promote_preds ix block d (d + int i) defs [] (predecessors f block) None None f")
        case (Inl e)
        with Inr show ?thesis by (simp add: Let_def)
      next
        case r: (Inr res)
        obtain localDef f1 where res: "res = (localDef, f1)" by (cases res)
        show ?thesis
        proof (cases "defs_write defs (int i) localDef")
          case (Inl e)
          with Inr r res show ?thesis by (simp add: Let_def)
        next
          case w: (Inr defs1)
          then have "length defs1 = length defs"
            by (auto simp: defs_write_def split: if_splits)
          with mem have "length defs1 \<in> set is" by simp
          from Cons.IH[OF this, of f1] obtain e where "promote_blocks ix d defs1 is f1 = Inl e" ..
          with Inr r res w show ?thesis by (simp add: Let_def)
        qed
      qed
    qed
  qed
qed


text \<open>
  The same for every call with \<open>defBlockId < destBlockId\<close>: the last round of the loop has
  \<open>i = span\<close>, the size of the vector, so the call never returns a value in the model.
\<close>

theorem promoteDefinition_never_returns:
  assumes "defBlockId < destBlockId"
  shows "\<exists>e. promoteDefinition ix f v defBlockId destBlockId = Inl e"
proof -
  define span where "span = nat (destBlockId - defBlockId + 1)"
  define defs where "defs = (replicate span (None :: val option))[0 := Some v]"
  have len: "length defs = span" by (simp add: defs_def)
  have "span \<in> set [1 ..< span + 1]" using assms by (simp add: span_def)
  with len have "length defs \<in> set [1 ..< span + 1]" by simp
  from promote_blocks_overrun[OF this, of ix defBlockId f]
  obtain e where "promote_blocks ix defBlockId defs [1 ..< span + 1] f = Inl e" ..
  then show ?thesis using assms
    by (simp add: promoteDefinition_def Let_def span_def[symmetric] defs_def[symmetric])
qed

theorem promoteDefinition_never_returns_witness:
  "(0::int) < 1 \<and> (\<exists>e. promoteDefinition line_ix line_fn (Inst 0) 0 1 = Inl e)"
  using promoteDefinition_never_returns[of 0 1 line_ix line_fn "Inst 0"] by simp

section \<open>Properties of the live value tracker\<close>

lemma isPHI_not_terminator: "isPHI I \<Longrightarrow> \<not> isTerminator I"
  by (cases I) auto

lemma getTerminator_insert_phi:
  assumes "fresh_inst f"
  shows "getTerminator (snd (insertAtFirstInsertionPt f h (PHI inc))) b = getTerminator f b"
proof (cases "b = h")
  case False
  show ?thesis
  proof (cases "body f b = []")
    case True
    then show ?thesis using False by (simp add: getTerminator_def insertAtFirstInsertionPt_def)
  next
    case ne: False
    then have "last (body f b) \<in> set (body f b)" by simp
    then have "last (body f b) \<noteq> nextInst f" using assms by (auto simp: fresh_inst_def)
    then show ?thesis using False ne by (simp add: getTerminator_def insertAtFirstInsertionPt_def)
  qed
next
  case True
  let ?P = "\<lambda>i. isPHI (instr f i)"
  have split: "body f h = takeWhile ?P (body f h) @ dropWhile ?P (body f h)" by simp
  show ?thesis
  proof (cases "dropWhile ?P (body f h) = []")
    case e: True
    have "getTerminator f h = None"
    proof (cases "body f h = []")
      case True then show ?thesis by (simp add: getTerminator_def)
    next
      case False
      then have "last (body f h) \<in> set (body f h)" by simp
      moreover have "\<forall>x\<in>set (body f h). ?P x" using e by simp
      ultimately have "isPHI (instr f (last (body f h)))" by blast
      then show ?thesis by (simp add: getTerminator_def isPHI_not_terminator)
    qed
    moreover have "getTerminator (snd (insertAtFirstInsertionPt f h (PHI inc))) h = None"
      unfolding getTerminator_def insertAtFirstInsertionPt_def phis_def nonPhis_def e by simp
    ultimately show ?thesis using True by simp
  next
    case ne: False
    have bne: "body f h \<noteq> []" using ne by auto
    have "last (takeWhile ?P (body f h) @ dropWhile ?P (body f h)) = last (dropWhile ?P (body f h))"
      using ne by (rule last_appendR)
    then have l: "last (body f h) = last (dropWhile ?P (body f h))" by simp
    have "last (body f h) \<in> set (body f h)" using bne by (rule last_in_set)
    then have tn: "last (body f h) \<noteq> nextInst f" using assms by (auto simp: fresh_inst_def)
    let ?f' = "snd (insertAtFirstInsertionPt f h (PHI inc))"
    have b': "body ?f' h = takeWhile ?P (body f h) @ nextInst f # dropWhile ?P (body f h)"
      by (simp add: insertAtFirstInsertionPt_def phis_def nonPhis_def)
    have gen: "\<And>t n d. d \<noteq> [] \<Longrightarrow> last (t @ n # d) = last (d :: nat list)" by simp
    have l': "last (body ?f' h) = last (body f h)"
      unfolding b' l by (rule gen[OF ne])
    have ne': "body ?f' h \<noteq> []" unfolding b' by simp
    have i': "instr ?f' (last (body f h)) = instr f (last (body f h))"
      using tn by (simp add: insertAtFirstInsertionPt_def)
    show ?thesis unfolding True getTerminator_def l' using ne' bne i' by simp
  qed
qed

lemma instr_insert_phi_old:
  "i \<noteq> nextInst f \<Longrightarrow> instr (snd (insertAtFirstInsertionPt f h I)) i = instr f i"
  by (simp add: insertAtFirstInsertionPt_def)

lemma succ_blocks_insert_phi:
  assumes "fresh_inst f"
  shows "succ_blocks (snd (insertAtFirstInsertionPt f h (PHI inc))) b = succ_blocks f b"
proof -
  have "\<And>t. getTerminator f b = Some t \<Longrightarrow> t \<in> set (body f b)"
    by (auto simp: getTerminator_def split: if_splits)
  then have "\<And>t. getTerminator f b = Some t \<Longrightarrow> t \<noteq> nextInst f"
    using assms by (auto simp: fresh_inst_def)
  then show ?thesis
    unfolding succ_blocks_def getTerminator_insert_phi[OF assms]
    by (auto split: option.splits simp: instr_insert_phi_old)
qed

lemma predecessors_insert_phi:
  assumes "fresh_inst f"
  shows "predecessors (snd (insertAtFirstInsertionPt f h (PHI inc))) b = predecessors f b"
  unfolding predecessors_def succ_blocks_insert_phi[OF assms]
  by (simp add: insertAtFirstInsertionPt_def)

lemma getLoopLatch_insert_phi:
  assumes "fresh_inst f"
  shows "getLoopLatch (snd (insertAtFirstInsertionPt f h (PHI inc))) L = getLoopLatch f L"
  unfolding getLoopLatch_def predecessors_insert_phi[OF assms] ..

lemma find_index_from_bounds:
  "find_index_from P xs n = i \<Longrightarrow> 0 \<le> i \<Longrightarrow> int n \<le> i \<and> i < int n + int (length xs) \<and> P (xs ! (nat i - n))"
proof (induction xs arbitrary: n)
  case Nil
  then show ?case by simp
next
  case (Cons x xs)
  show ?case
  proof (cases "P x")
    case True
    with Cons.prems show ?thesis by auto
  next
    case False
    with Cons.prems have "find_index_from P xs (Suc n) = i" by simp
    from Cons.IH[OF this Cons.prems(2)]
    have h: "int (Suc n) \<le> i" "i < int (Suc n) + int (length xs)" "P (xs ! (nat i - Suc n))" by auto
    then have "nat i - n = Suc (nat i - Suc n)" by linarith
    with h show ?thesis by auto
  qed
qed

lemma getBasicBlockIndex_block:
  assumes "0 \<le> getBasicBlockIndex f p b"
  shows "snd (incoming f p ! nat (getBasicBlockIndex f p b)) = b"
proof (cases "instr f p")
  case (PHI inc)
  then have "find_index_from (\<lambda>x. snd x = b) inc 0 = getBasicBlockIndex f p b"
    by (simp add: getBasicBlockIndex_def)
  from find_index_from_bounds[OF this assms] PHI show ?thesis by (simp add: incoming_def)
qed (use assms in \<open>auto simp: getBasicBlockIndex_def\<close>)

lemma requestTracker_new:
  assumes live: "ts_live t v = None"
    and fresh: "fresh_inst (ts_fn t)"
    and np: "Inst (nextInst (ts_fn t)) \<notin> pinned (ts_vi t)"
    and req: "requestTracker c t v = Inr (phi, t1)"
  shows "\<exists>latch. getLoopLatch (ts_fn t) (tr_loop c) = Some latch
           \<and> phi = nextInst (ts_fn t)
           \<and> body (ts_fn t1) (header (tr_loop c))
                = phis (ts_fn t) (header (tr_loop c)) @ [phi] @ nonPhis (ts_fn t) (header (tr_loop c))
           \<and> instr (ts_fn t1) phi = PHI [(Undef, tr_preHeader c), (Inst phi, latch)]
           \<and> getVectorShape (ts_vi t1) (Inst phi) = Varying 1
           \<and> ts_live t1 = (ts_live t)(v \<mapsto> phi)"
proof -
  let ?f = "ts_fn t"
  let ?h = "header (tr_loop c)"
  define f1 where "f1 = snd (insertAtFirstInsertionPt ?f ?h (PHI []))"
  have ins: "insertAtFirstInsertionPt ?f ?h (PHI []) = (nextInst ?f, f1)"
    by (simp add: insertAtFirstInsertionPt_def f1_def)
  have ll: "getLoopLatch f1 (tr_loop c) = getLoopLatch ?f (tr_loop c)"
    unfolding f1_def by (rule getLoopLatch_insert_phi[OF fresh])
  have f1_body: "body f1 ?h = phis ?f ?h @ [nextInst ?f] @ nonPhis ?f ?h"
    and f1_instr: "instr f1 (nextInst ?f) = PHI []"
    by (simp_all add: f1_def insertAtFirstInsertionPt_def)
  have req': "(case getLoopLatch ?f (tr_loop c) of
                  None \<Rightarrow> Inl NullDeref
                | Some latch \<Rightarrow>
                    (case getTerminator f1 latch of
                       None \<Rightarrow> Inl NullDeref
                     | Some tm \<Rightarrow>
                         Inr (nextInst ?f,
                              \<lparr>ts_live = (ts_live t)(v \<mapsto> nextInst ?f),
                               ts_fn = addIncoming (addIncoming f1 (nextInst ?f) Undef (tr_preHeader c))
                                         (nextInst ?f) (Inst (nextInst ?f)) latch,
                               ts_vi = setVectorShape (ts_vi t) (Inst (nextInst ?f)) (varying 1)\<rparr>)))
              = Inr (phi, t1)"
    using req live unfolding requestTracker_def ins by (simp add: ll)
  then obtain latch where latch: "getLoopLatch ?f (tr_loop c) = Some latch"
    by (cases "getLoopLatch ?f (tr_loop c)") auto
  from req' latch have phi: "phi = nextInst ?f"
    and t1: "t1 = \<lparr>ts_live = (ts_live t)(v \<mapsto> phi),
                   ts_fn = addIncoming (addIncoming f1 phi Undef (tr_preHeader c)) phi (Inst phi) latch,
                   ts_vi = setVectorShape (ts_vi t) (Inst phi) (varying 1)\<rparr>"
    by (auto split: option.splits)
  have "instr (ts_fn t1) phi = PHI [(Undef, tr_preHeader c), (Inst phi, latch)]"
    unfolding t1 using f1_instr by (simp add: addIncoming_def phi)
  moreover have "body (ts_fn t1) ?h = phis ?f ?h @ [phi] @ nonPhis ?f ?h"
    unfolding t1 using f1_body f1_instr by (simp add: addIncoming_def phi)
  moreover have "getVectorShape (ts_vi t1) (Inst phi) = Varying 1"
    unfolding t1 using np phi by (simp add: getVectorShape_def setVectorShape_def varying_def)
  moreover have "ts_live t1 = (ts_live t)(v \<mapsto> phi)" unfolding t1 by simp
  ultimately show ?thesis using latch phi by blast
qed

lemma addTrackerUpdate_select:
  assumes np: "Inst (nextInst (ts_fn t)) \<notin> pinned (ts_vi t)"
    and upd: "addTrackerUpdate c m t tracker exiting exit v = Inr t2"
  shows "\<exists>latch mask prev tm.
           getLoopLatch (ts_fn t) (tr_loop c) = Some latch
         \<and> getCombinedLoopExitMask m (tr_loopId c) = Some mask
         \<and> getIncomingValue (ts_fn t) tracker (getBasicBlockIndex (ts_fn t) tracker latch) = Inr prev
         \<and> getTerminator (ts_fn t) latch = Some tm
         \<and> body (ts_fn t2) latch = butlast (body (ts_fn t) latch) @ [nextInst (ts_fn t), tm]
         \<and> instr (ts_fn t2) (nextInst (ts_fn t)) = Select mask (Inst v) prev
         \<and> incoming (ts_fn t2) tracker
             = (incoming (ts_fn t) tracker)
                 [nat (getBasicBlockIndex (ts_fn t) tracker latch) := (Inst (nextInst (ts_fn t)), latch)]
         \<and> getVectorShape (ts_vi t2) (Inst (nextInst (ts_fn t))) = Varying 1"
proof -
  let ?f = "ts_fn t"
  from upd obtain latch where latch: "getLoopLatch ?f (tr_loop c) = Some latch"
    by (cases "getLoopLatch ?f (tr_loop c)") (auto simp: addTrackerUpdate_def)
  let ?i = "getBasicBlockIndex ?f tracker latch"
  from upd latch obtain prev where prev: "getIncomingValue ?f tracker ?i = Inr prev"
    by (cases "getIncomingValue ?f tracker ?i") (auto simp: addTrackerUpdate_def)
  from upd latch prev obtain mask where mask: "getCombinedLoopExitMask m (tr_loopId c) = Some mask"
    by (cases "getCombinedLoopExitMask m (tr_loopId c)") (auto simp: addTrackerUpdate_def)
  from upd latch prev mask obtain tm where tm: "getTerminator ?f latch = Some tm"
    by (cases "getTerminator ?f latch") (auto simp: addTrackerUpdate_def insertBeforeTerminator_def)
  define f1 where "f1 = ?f\<lparr>body := (body ?f)(latch := butlast (body ?f latch) @ [nextInst ?f, tm]),
                 instr := (instr ?f)(nextInst ?f := Select mask (Inst v) prev),
                 nextInst := Suc (nextInst ?f)\<rparr>"
  have ins: "insertBeforeTerminator ?f latch (Select mask (Inst v) prev) = Inr (nextInst ?f, f1)"
    using tm by (simp add: insertBeforeTerminator_def f1_def)
  have f1_body: "body f1 latch = butlast (body ?f latch) @ [nextInst ?f, tm]"
    and f1_new: "instr f1 (nextInst ?f) = Select mask (Inst v) prev"
    and f1_old: "\<And>i. i \<noteq> nextInst ?f \<Longrightarrow> instr f1 i = instr ?f i"
    by (simp_all add: f1_def)
  from upd latch prev mask ins obtain f2 where
    set: "setIncomingValue f1 tracker ?i (Inst (nextInst ?f)) = Inr f2"
    and t2: "t2 = t\<lparr>ts_fn := f2, ts_vi := setVectorShape (ts_vi t) (Inst (nextInst ?f)) (varying 1)\<rparr>"
    by (cases "setIncomingValue f1 tracker ?i (Inst (nextInst ?f))") (auto simp: addTrackerUpdate_def)
  have range: "0 \<le> ?i" "?i < int (length (incoming ?f tracker))"
    using prev by (auto simp: getIncomingValue_def split: if_splits)
  have ne: "tracker \<noteq> nextInst ?f"
  proof
    assume "tracker = nextInst ?f"
    then have "incoming f1 tracker = []" using f1_new by (simp add: incoming_def)
    with set show False by (simp add: setIncomingValue_def split: if_splits)
  qed
  then have inc1: "incoming f1 tracker = incoming ?f tracker" using f1_old by (simp add: incoming_def)
  from set inc1 range have f2: "f2 = f1\<lparr>instr := (instr f1)(tracker := PHI ((incoming ?f tracker)
        [nat ?i := (Inst (nextInst ?f), snd (incoming ?f tracker ! nat ?i))]))\<rparr>"
    by (simp add: setIncomingValue_def)
  have blk: "snd (incoming ?f tracker ! nat ?i) = latch"
    by (rule getBasicBlockIndex_block[OF range(1)])
  have "body (ts_fn t2) latch = butlast (body ?f latch) @ [nextInst ?f, tm]"
    unfolding t2 f2 using f1_body by simp
  moreover have "instr (ts_fn t2) (nextInst ?f) = Select mask (Inst v) prev"
    unfolding t2 f2 using ne f1_new by simp
  moreover have "incoming (ts_fn t2) tracker
      = (incoming ?f tracker)[nat ?i := (Inst (nextInst ?f), latch)]"
    unfolding t2 f2 using blk by (simp add: incoming_def)
  moreover have "getVectorShape (ts_vi t2) (Inst (nextInst ?f)) = Varying 1"
    unfolding t2 using np by (simp add: getVectorShape_def setVectorShape_def varying_def)
  ultimately show ?thesis using latch mask prev tm by blast
qed


text \<open>
  C4.  A tracker PHI node that \<open>requestTracker\<close> creates for the live-out \<open>v\<close> is a new
  instruction among the PHI nodes of the loop header, has the incoming values undef from the
  pre-header and itself from the latch, and has the shape varying.  \<open>addTrackerUpdate\<close>
  creates the select of the combined loop exit mask, \<open>v\<close> and the previous latch incoming
  of the tracker, places it in the latch before the terminator, gives it the shape varying
  and makes it the latch incoming of the tracker.  (A new instruction is not pinned.)
\<close>

theorem tracker_phi_and_update:
  "(ts_live t v = None \<and> fresh_inst (ts_fn t) \<and> Inst (nextInst (ts_fn t)) \<notin> pinned (ts_vi t)
      \<and> requestTracker c t v = Inr (phi, t1)
    \<longrightarrow> (\<exists>latch. getLoopLatch (ts_fn t) (tr_loop c) = Some latch
           \<and> phi = nextInst (ts_fn t)
           \<and> body (ts_fn t1) (header (tr_loop c))
                = phis (ts_fn t) (header (tr_loop c)) @ [phi] @ nonPhis (ts_fn t) (header (tr_loop c))
           \<and> instr (ts_fn t1) phi = PHI [(Undef, tr_preHeader c), (Inst phi, latch)]
           \<and> getVectorShape (ts_vi t1) (Inst phi) = Varying 1
           \<and> ts_live t1 = (ts_live t)(v \<mapsto> phi)))
   \<and> (Inst (nextInst (ts_fn u)) \<notin> pinned (ts_vi u)
      \<and> addTrackerUpdate c m u tracker exiting exit v = Inr u2
    \<longrightarrow> (\<exists>latch mask prev tm.
           getLoopLatch (ts_fn u) (tr_loop c) = Some latch
         \<and> getCombinedLoopExitMask m (tr_loopId c) = Some mask
         \<and> getIncomingValue (ts_fn u) tracker (getBasicBlockIndex (ts_fn u) tracker latch) = Inr prev
         \<and> getTerminator (ts_fn u) latch = Some tm
         \<and> body (ts_fn u2) latch = butlast (body (ts_fn u) latch) @ [nextInst (ts_fn u), tm]
         \<and> instr (ts_fn u2) (nextInst (ts_fn u)) = Select mask (Inst v) prev
         \<and> incoming (ts_fn u2) tracker
             = (incoming (ts_fn u) tracker)
                 [nat (getBasicBlockIndex (ts_fn u) tracker latch) := (Inst (nextInst (ts_fn u)), latch)]
         \<and> getVectorShape (ts_vi u2) (Inst (nextInst (ts_fn u))) = Varying 1))"
  using requestTracker_new[of t v c phi t1] addTrackerUpdate_select[of u c m tracker exiting exit v u2]
  by blast

lemma kill_request: "requestTracker kill_ctx kill_t0 10 = Inr (40, kill_t1)"
  by (simp add: kill_t1_def ir_defs tracker_defs kill_defs)

lemma kill_t1_fn:
  "ts_fn kill_t1 = kill_fn\<lparr>body := (body kill_fn)(1 := [40, 10, 11]),
       instr := (instr kill_fn)(40 := PHI [(Undef, 0), (Inst 40, 2)]), nextInst := 41\<rparr>"
  by (simp add: kill_t1_def ir_defs tracker_defs kill_defs)

lemma kill_t1_vi: "pinned (ts_vi kill_t1) = {}"
  by (simp add: kill_t1_def ir_defs tracker_defs kill_defs)

lemma kill_update: "\<exists>t2. addTrackerUpdate kill_ctx kill_ma kill_t1 40 1 3 10 = Inr t2"
  by (simp add: addTrackerUpdate_def kill_t1_fn ir_defs kill_defs)

theorem tracker_phi_and_update_witness:
  "ts_live kill_t0 10 = None \<and> fresh_inst (ts_fn kill_t0)
   \<and> Inst (nextInst (ts_fn kill_t0)) \<notin> pinned (ts_vi kill_t0)
   \<and> requestTracker kill_ctx kill_t0 10 = Inr (40, kill_t1)
   \<and> instr (ts_fn kill_t1) 40 = PHI [(Undef, 0), (Inst 40, 2)]
   \<and> getVectorShape (ts_vi kill_t1) (Inst 40) = Varying 1
   \<and> Inst (nextInst (ts_fn kill_t1)) \<notin> pinned (ts_vi kill_t1)
   \<and> (\<exists>t2. addTrackerUpdate kill_ctx kill_ma kill_t1 40 1 3 10 = Inr t2
          \<and> instr (ts_fn t2) 41 = Select (Arg 1) (Inst 10) (Inst 40)
          \<and> body (ts_fn t2) 2 = [41, 20]
          \<and> incoming (ts_fn t2) 40 = [(Undef, 0), (Inst 41, 2)]
          \<and> getVectorShape (ts_vi t2) (Inst 41) = Varying 1)"
proof -
  have h1: "ts_live kill_t0 10 = None" by (simp add: kill_defs)
  have h2: "fresh_inst (ts_fn kill_t0)" by (simp add: fresh_inst_def kill_defs)
  have h3: "Inst (nextInst (ts_fn kill_t0)) \<notin> pinned (ts_vi kill_t0)" by (simp add: kill_defs)
  note h4 = kill_request
  have latch0: "getLoopLatch (ts_fn kill_t0) (tr_loop kill_ctx) = Some 2"
    by (simp add: ir_defs kill_defs)
  from tracker_phi_and_update[where t=kill_t0 and v=10 and phi=40 and c=kill_ctx and ?t1.0=kill_t1]
    h1 h2 h3 h4 latch0
  have a: "instr (ts_fn kill_t1) 40 = PHI [(Undef, 0), (Inst 40, 2)]"
    "getVectorShape (ts_vi kill_t1) (Inst 40) = Varying 1"
    by (auto simp: kill_ctx_def)
  have h5: "Inst (nextInst (ts_fn kill_t1)) \<notin> pinned (ts_vi kill_t1)" by (simp add: kill_t1_vi)
  from kill_update obtain t2 where h6: "addTrackerUpdate kill_ctx kill_ma kill_t1 40 1 3 10 = Inr t2" ..
  have latch1: "getLoopLatch (ts_fn kill_t1) (tr_loop kill_ctx) = Some 2"
    by (simp add: kill_t1_fn ir_defs kill_defs)
  have n1: "nextInst (ts_fn kill_t1) = 41" by (simp add: kill_t1_fn)
  have idx: "getBasicBlockIndex (ts_fn kill_t1) 40 2 = 1"
    by (simp add: kill_t1_fn getBasicBlockIndex_def)
  have inc: "incoming (ts_fn kill_t1) 40 = [(Undef, 0), (Inst 40, 2)]"
    by (simp add: kill_t1_fn incoming_def)
  have tm: "getTerminator (ts_fn kill_t1) 2 = Some 20" "body (ts_fn kill_t1) 2 = [20]"
    by (simp_all add: kill_t1_fn getTerminator_def kill_fn_def)
  have mk: "getCombinedLoopExitMask kill_ma (tr_loopId kill_ctx) = Some (Arg 1)"
    by (simp add: kill_defs)
  from tracker_phi_and_update[where u=kill_t1 and v=10 and c=kill_ctx and m=kill_ma and tracker=40
      and exiting=1 and exit=3 and ?u2.0=t2] h5 h6
  obtain latch mask prev tm' where b:
    "getLoopLatch (ts_fn kill_t1) (tr_loop kill_ctx) = Some latch"
    "getCombinedLoopExitMask kill_ma (tr_loopId kill_ctx) = Some mask"
    "getIncomingValue (ts_fn kill_t1) 40 (getBasicBlockIndex (ts_fn kill_t1) 40 latch) = Inr prev"
    "getTerminator (ts_fn kill_t1) latch = Some tm'"
    "body (ts_fn t2) latch = butlast (body (ts_fn kill_t1) latch) @ [nextInst (ts_fn kill_t1), tm']"
    "instr (ts_fn t2) (nextInst (ts_fn kill_t1)) = Select mask (Inst 10) prev"
    "incoming (ts_fn t2) 40 = (incoming (ts_fn kill_t1) 40)
        [nat (getBasicBlockIndex (ts_fn kill_t1) 40 latch) := (Inst (nextInst (ts_fn kill_t1)), latch)]"
    "getVectorShape (ts_vi t2) (Inst (nextInst (ts_fn kill_t1))) = Varying 1"
    by blast
  from b(1) latch1 have l: "latch = 2" by simp
  from b(2) mk have m: "mask = Arg 1" by simp
  from b(3) have p: "prev = Inst 40" unfolding l idx by (simp add: getIncomingValue_def inc)
  from b(4) tm have t: "tm' = 20" unfolding l by simp
  have "instr (ts_fn t2) 41 = Select (Arg 1) (Inst 10) (Inst 40)" using b(6) unfolding n1 m p .
  moreover have "body (ts_fn t2) 2 = [41, 20]" using b(5) unfolding l n1 t tm by simp
  moreover have "incoming (ts_fn t2) 40 = [(Undef, 0), (Inst 41, 2)]"
    using b(7) unfolding l idx inc n1 by simp
  moreover have "getVectorShape (ts_vi t2) (Inst 41) = Varying 1" using b(8) unfolding n1 .
  ultimately show ?thesis using h1 h2 h3 h4 a h5 h6 by blast
qed

text \<open>
  C2 (the claim: for a kill exit, \<open>trackLiveOuts\<close> creates no tracker PHI node at the loop
  header, inserts no tracker update at the latch and leaves the closed-SSA PHI node of the
  exit unchanged).  The code on the loop with a kill exit: block 3 is not mandatory, so
  \<open>finalExit\<close> is set; the tracker of \<open>Inst 10\<close> is requested and updated all the same, and
  only then is the PHI node skipped.  The header gets the tracker PHI node \<open>Inst 40\<close>, the
  latch the select \<open>Inst 41\<close>; the closed-SSA PHI node \<open>Inst 30\<close> is unchanged.
\<close>

theorem trackLiveOuts_kill_exit_tracks:
  "\<not> isMandatory (ts_vi kill_t0) 3
   \<and> (\<exists>t'. trackLiveOuts kill_ctx kill_ma kill_t0 3 = Inr t'
          \<and> body (ts_fn t') 1 = [40, 10, 11]
          \<and> instr (ts_fn t') 40 = PHI [(Undef, 0), (Inst 41, 2)]
          \<and> body (ts_fn t') 2 = [41, 20]
          \<and> instr (ts_fn t') 41 = Select (Arg 1) (Inst 10) (Inst 40)
          \<and> instr (ts_fn t') 30 = PHI [(Inst 10, 1)]
          \<and> ts_live t' 10 = Some 40)"
  by (simp add: ir_defs tracker_defs kill_defs)

section \<open>Properties of foldPhis\<close>

lemma takeWhile_prefix:
  "\<forall>i \<in> set A. P i \<Longrightarrow> B = [] \<or> \<not> P (hd B) \<Longrightarrow> takeWhile P (A @ B) = A"
  by (induction A) (auto, cases B, auto)

lemma dropWhile_prefix:
  "\<forall>i \<in> set A. P i \<Longrightarrow> B = [] \<or> \<not> P (hd B) \<Longrightarrow> dropWhile P (A @ B) = B"
  by (induction A) (auto, cases B, auto)

lemma dropWhile_hd: "dropWhile P xs = [] \<or> \<not> P (hd (dropWhile P xs))"
  by (induction xs) auto

lemma insertManyBefore_firstInsertionPt:
  "insertManyBefore (firstInsertionPt f b) new (body f b) = phis f b @ new @ nonPhis f b"
proof (cases "nonPhis f b")
  case Nil
  then have "phis f b = body f b"
    unfolding phis_def nonPhis_def by (metis append_Nil2 takeWhile_dropWhile_id)
  with Nil show ?thesis by (simp add: insertManyBefore_def firstInsertionPt_def)
next
  case (Cons x xs)
  let ?Q = "\<lambda>i. isPHI (instr f i)"
  let ?P = "\<lambda>i. i \<noteq> x"
  have bd: "body f b = phis f b @ nonPhis f b" by (simp add: phis_def nonPhis_def)
  have "\<not> ?Q (hd (nonPhis f b))" using Cons dropWhile_hd[of ?Q "body f b"] by (auto simp: nonPhis_def)
  then have nq: "\<not> ?Q x" using Cons by simp
  have pre: "\<forall>i \<in> set (phis f b). ?P i" using nq by (auto simp: phis_def dest: set_takeWhileD)
  have post: "nonPhis f b = [] \<or> \<not> ?P (hd (nonPhis f b))" using Cons by simp
  have "takeWhile ?P (body f b) = phis f b" "dropWhile ?P (body f b) = nonPhis f b"
    unfolding bd by (rule takeWhile_prefix[OF pre post], rule dropWhile_prefix[OF pre post])
  with Cons show ?thesis by (simp add: insertManyBefore_def firstInsertionPt_def)
qed

lemma firstInsertionPt_in_body:
  "firstInsertionPt f b = Some x \<Longrightarrow> x \<in> set (body f b)"
  by (auto simp: firstInsertionPt_def nonPhis_def split: list.splits dest: set_dropWhileD
      intro: set_dropWhileD[of _ "\<lambda>i. isPHI (instr f i)"])

lemma map_filter_snd_Cons:
  "List.map_filter snd ((d, None) # st) = List.map_filter snd st"
  "List.map_filter snd ((d, Some x) # st) = x # List.map_filter snd st"
  by (simp_all add: List.map_filter_simps)

lemma spec_chain_ids:
  "map fst (List.map_filter snd (spec_chain fs n d mvs))
     = [n ..< n + length (List.map_filter snd (spec_chain fs n d mvs))]"
proof (induction mvs arbitrary: n d)
  case Nil
  then show ?case by (simp add: List.map_filter_simps)
next
  case (Cons a mvs)
  obtain m v where a: "a = (m, v)" by (cases a)
  show ?case
  proof (cases "isConstant m \<and> isConstant v \<and> isConstant d")
    case True
    then have "spec_chain fs n d (a # mvs) = (fs m v d, None) # spec_chain fs n (fs m v d) mvs"
      using a by simp
    then show ?thesis using Cons.IH[of n "fs m v d"] by (simp only: map_filter_snd_Cons)
  next
    case False
    let ?st = "spec_chain fs (Suc n) (Inst n) mvs"
    let ?k = "length (List.map_filter snd ?st)"
    from False have sc: "spec_chain fs n d (a # mvs) = (Inst n, Some (n, Select m v d)) # ?st"
      using a by simp
    have "[n ..< n + Suc ?k] = n # [Suc n ..< Suc n + ?k]"
      using upt_conv_Cons[of n "n + Suc ?k"] by simp
    with Cons.IH[of "Suc n" "Inst n"] show ?thesis
      unfolding sc map_filter_snd_Cons by simp
  qed
qed

lemma spec_chain_map_of:
  "i < n \<Longrightarrow> map_of (List.map_filter snd (spec_chain fs n d mvs)) i = None"
proof -
  assume "i < n"
  then have "i \<notin> set (map fst (List.map_filter snd (spec_chain fs n d mvs)))"
    by (subst spec_chain_ids) simp
  then show ?thesis by (simp add: map_of_eq_None_iff)
qed

lemma insertManyBefore_Cons:
  assumes "\<And>x. pos = Some x \<Longrightarrow> x \<noteq> n"
  shows "insertManyBefore pos ys (insertBeforePos pos n xs) = insertManyBefore pos (n # ys) xs"
proof (cases pos)
  case None
  then show ?thesis by (simp add: insertBeforePos_def insertManyBefore_def)
next
  case (Some x)
  with assms have nx: "x \<noteq> n" by auto
  let ?P = "\<lambda>i. i \<noteq> x"
  let ?pre = "takeWhile ?P xs"
  let ?post = "dropWhile ?P xs"
  have pre: "\<forall>i \<in> set (?pre @ [n]). ?P i" using nx by (auto dest: set_takeWhileD)
  have post: "?post = [] \<or> \<not> ?P (hd ?post)" by (rule dropWhile_hd)
  have tw: "takeWhile ?P ((?pre @ [n]) @ ?post) = ?pre @ [n]"
    by (rule takeWhile_prefix[OF pre post])
  have dw: "dropWhile ?P ((?pre @ [n]) @ ?post) = ?post"
    by (rule dropWhile_prefix[OF pre post])
  have ib: "insertBeforePos pos n xs = (?pre @ [n]) @ ?post"
    using Some by (simp add: insertBeforePos_def)
  show ?thesis unfolding ib using Some tw dw by (simp add: insertManyBefore_def)
qed

lemma insertManyBefore_Nil: "insertManyBefore pos [] xs = xs"
proof (cases pos)
  case None
  then show ?thesis by (simp add: insertManyBefore_def)
next
  case (Some x)
  have "takeWhile (\<lambda>i. i \<noteq> x) xs @ dropWhile (\<lambda>i. i \<noteq> x) xs = xs" by (rule takeWhile_dropWhile_id)
  with Some show ?thesis by (simp add: insertManyBefore_def)
qed

lemma fold_chain_spec:
  assumes "fold_chain fs em B pos sh rest d0 f vi = Inr (d, f', vi')"
    and "\<And>x. pos = Some x \<Longrightarrow> x < nextInst f"
  shows "d = last (d0 # map fst (spec_chain fs (nextInst f) d0
                                  (map (\<lambda>x. (the (em (snd x, B)), fst x)) rest)))
       \<and> f' = f\<lparr>body := (body f)(B := insertManyBefore pos
                   (map fst (List.map_filter snd (spec_chain fs (nextInst f) d0
                                  (map (\<lambda>x. (the (em (snd x, B)), fst x)) rest))))
                   (body f B)),
                 instr := (\<lambda>i. case map_of (List.map_filter snd (spec_chain fs (nextInst f) d0
                                  (map (\<lambda>x. (the (em (snd x, B)), fst x)) rest))) i of
                                Some I \<Rightarrow> I | None \<Rightarrow> instr f i),
                 nextInst := nextInst f + length (List.map_filter snd (spec_chain fs (nextInst f) d0
                                  (map (\<lambda>x. (the (em (snd x, B)), fst x)) rest)))\<rparr>
       \<and> vi' = fold (\<lambda>d w. setVectorShape w d sh)
                 (map fst (spec_chain fs (nextInst f) d0
                                  (map (\<lambda>x. (the (em (snd x, B)), fst x)) rest))) vi"
  using assms
proof (induction rest arbitrary: d0 f vi)
  case Nil
  then show ?case by (simp add: List.map_filter_simps insertManyBefore_Nil)
next
  case (Cons a rest)
  obtain inVal inBlock where a: "a = (inVal, inBlock)" by (cases a)
  from Cons.prems(1) a obtain m where m: "em (inBlock, B) = Some m"
    by (cases "em (inBlock, B)") (auto simp: getEdgeMask_def)
  let ?n = "nextInst f"
  let ?mvs = "map (\<lambda>x. (the (em (snd x, B)), fst x)) rest"
  show ?case
  proof (cases "isConstant m \<and> isConstant inVal \<and> isConstant d0")
    case True
    then have cs: "CreateSelect fs f B pos m inVal d0 = (fs m inVal d0, f)"
      by (simp add: CreateSelect_def)
    from Cons.prems(1) a m cs have rec:
      "fold_chain fs em B pos sh rest (fs m inVal d0) f (setVectorShape vi (fs m inVal d0) sh)
         = Inr (d, f', vi')"
      by (simp add: getEdgeMask_def)
    have sc: "spec_chain fs (nextInst f) d0 (map (\<lambda>x. (the (em (snd x, B)), fst x)) (a # rest))
                = (fs m inVal d0, None) # spec_chain fs (nextInst f) (fs m inVal d0) ?mvs"
      using True a m by simp
    have l: "last (d0 # map fst ((fs m inVal d0, None) # spec_chain fs (nextInst f) (fs m inVal d0) ?mvs))
               = last (fs m inVal d0 # map fst (spec_chain fs (nextInst f) (fs m inVal d0) ?mvs))"
      by simp
    have v: "fold (\<lambda>d w. setVectorShape w d sh)
               (map fst ((fs m inVal d0, None) # spec_chain fs (nextInst f) (fs m inVal d0) ?mvs)) vi
             = fold (\<lambda>d w. setVectorShape w d sh)
               (map fst (spec_chain fs (nextInst f) (fs m inVal d0) ?mvs))
               (setVectorShape vi (fs m inVal d0) sh)"
      by simp
    show ?thesis unfolding sc map_filter_snd_Cons l v
      by (rule Cons.IH[OF rec Cons.prems(2)])
  next
    case False
    define f1 where "f1 = f\<lparr>body := (body f)(B := insertBeforePos pos ?n (body f B)),
                            instr := (instr f)(?n := Select m inVal d0),
                            nextInst := Suc ?n\<rparr>"
    have cs: "CreateSelect fs f B pos m inVal d0 = (Inst ?n, f1)"
      using False by (auto simp add: CreateSelect_def f1_def)
    from Cons.prems(1) a m cs have rec:
      "fold_chain fs em B pos sh rest (Inst ?n) f1 (setVectorShape vi (Inst ?n) sh) = Inr (d, f', vi')"
      by (simp add: getEdgeMask_def)
    have p1: "\<And>x. pos = Some x \<Longrightarrow> x < nextInst f1"
      using Cons.prems(2) by (auto simp: f1_def)
    have n1: "nextInst f1 = Suc ?n" by (simp add: f1_def)
    note IH = Cons.IH[OF rec p1, unfolded n1]
    let ?st = "spec_chain fs (Suc ?n) (Inst ?n) ?mvs"
    let ?news = "List.map_filter snd ?st"
    have sc: "spec_chain fs ?n d0 (map (\<lambda>x. (the (em (snd x, B)), fst x)) (a # rest))
                = (Inst ?n, Some (?n, Select m inVal d0)) # ?st"
      using False a m by simp
    have pn: "\<And>x. pos = Some x \<Longrightarrow> x \<noteq> ?n" using Cons.prems(2) by fastforce
    have bd: "insertManyBefore pos (map fst ?news) (body f1 B)
               = insertManyBefore pos (?n # map fst ?news) (body f B)"
      unfolding f1_def using insertManyBefore_Cons[OF pn] by simp
    have mo: "map_of ?news ?n = None" by (rule spec_chain_map_of) simp
    have ins: "(\<lambda>i. case map_of ?news i of Some I \<Rightarrow> I | None \<Rightarrow> instr f1 i)
             = (\<lambda>i. case map_of ((?n, Select m inVal d0) # ?news) i of Some I \<Rightarrow> I | None \<Rightarrow> instr f i)"
    proof (rule ext)
      fix i
      show "(case map_of ?news i of Some I \<Rightarrow> I | None \<Rightarrow> instr f1 i)
             = (case map_of ((?n, Select m inVal d0) # ?news) i of Some I \<Rightarrow> I | None \<Rightarrow> instr f i)"
      proof (cases "i = ?n")
        case True
        with mo show ?thesis by (simp add: f1_def)
      next
        case False
        then have "instr f1 i = instr f i" by (simp add: f1_def)
        with False show ?thesis by (simp split: option.splits)
      qed
    qed
    from IH[THEN conjunct1] have d: "d = last (Inst ?n # map fst ?st)" .
    from IH[THEN conjunct2, THEN conjunct1]
    have f': "f' = f1\<lparr>body := (body f1)(B := insertManyBefore pos (map fst ?news) (body f1 B)),
                 instr := (\<lambda>i. case map_of ?news i of Some I \<Rightarrow> I | None \<Rightarrow> instr f1 i),
                 nextInst := Suc ?n + length ?news\<rparr>" .
    from IH[THEN conjunct2, THEN conjunct2]
    have vi': "vi' = fold (\<lambda>d w. setVectorShape w d sh) (map fst ?st) (setVectorShape vi (Inst ?n) sh)" .
    have bd2: "insertManyBefore pos (map fst ?news) (body f1 B)
               = insertManyBefore pos (map fst ((?n, Select m inVal d0) # ?news)) (body f B)"
      using bd by simp
    have f1b: "body f1 = (body f)(B := insertBeforePos pos ?n (body f B))" by (simp add: f1_def)
    have f'2: "f' = f\<lparr>body := (body f)(B := insertManyBefore pos (map fst ((?n, Select m inVal d0) # ?news)) (body f B)),
                 instr := (\<lambda>i. case map_of ((?n, Select m inVal d0) # ?news) i of Some I \<Rightarrow> I | None \<Rightarrow> instr f i),
                 nextInst := ?n + length ((?n, Select m inVal d0) # ?news)\<rparr>"
      unfolding f' bd2 ins unfolding f1_def by simp
    have l: "last (d0 # map fst ((Inst ?n, Some (?n, Select m inVal d0)) # ?st)) = last (Inst ?n # map fst ?st)"
      by simp
    have v: "fold (\<lambda>d w. setVectorShape w d sh) (map fst ((Inst ?n, Some (?n, Select m inVal d0)) # ?st)) vi
             = fold (\<lambda>d w. setVectorShape w d sh) (map fst ?st) (setVectorShape vi (Inst ?n) sh)"
      by simp
    show ?thesis unfolding sc map_filter_snd_Cons l v
      by (intro conjI) (rule d, rule f'2, rule vi')
  qed
qed

lemma phis_nonPhis_set: "set (phis f B) \<union> set (nonPhis f B) = set (body f B)"
proof -
  have "phis f B @ nonPhis f B = body f B" by (simp add: phis_def nonPhis_def)
  then have "set (phis f B @ nonPhis f B) = set (body f B)" by simp
  then show ?thesis by simp
qed

lemma foldPhi_spec:
  assumes run: "foldPhi fs em B (f, vi) p = Inr (f', vi')" and below: "insts_below f"
  shows "(f', vi') = spec_foldPhi fs em B (f, vi) p"
proof -
  from run obtain v0 b0 rest where inc: "incoming f p = (v0, b0) # rest"
    by (cases "incoming f p") (auto simp: foldPhi_def)
  let ?pos = "firstInsertionPt f B"
  let ?sh = "getVectorShape vi (Inst p)"
  from run inc obtain d fc where
    ch: "fold_chain fs em B ?pos ?sh rest v0 f vi = Inr (d, fc, vi')"
    and f': "f' = eraseFromParent (replaceAllUsesWith fc (Inst p) d) p"
    by (cases "fold_chain fs em B ?pos ?sh rest v0 f vi")
       (auto simp: foldPhi_def split: if_splits)
  have pos: "\<And>x. ?pos = Some x \<Longrightarrow> x < nextInst f"
  proof -
    fix x assume "?pos = Some x"
    then have "x \<in> set (body f B)" by (rule firstInsertionPt_in_body)
    with below show "x < nextInst f" unfolding insts_below_def by blast
  qed
  note sp = fold_chain_spec[OF ch pos]
  let ?steps = "spec_chain fs (nextInst f) v0 (map (\<lambda>x. (the (em (snd x, B)), fst x)) rest)"
  from sp[THEN conjunct1] have d: "d = last (v0 # map fst ?steps)" .
  from sp[THEN conjunct2, THEN conjunct1]
  have fc: "fc = f\<lparr>body := (body f)(B := phis f B @ map fst (List.map_filter snd ?steps) @ nonPhis f B),
                 instr := (\<lambda>i. case map_of (List.map_filter snd ?steps) i of
                                Some I \<Rightarrow> I | None \<Rightarrow> instr f i),
                 nextInst := nextInst f + length (List.map_filter snd ?steps)\<rparr>"
    by (simp only: insertManyBefore_firstInsertionPt)
  from sp[THEN conjunct2, THEN conjunct2]
  have vi': "vi' = fold (\<lambda>d w. setVectorShape w d ?sh) (map fst ?steps) vi" .
  show ?thesis unfolding spec_foldPhi_def f' using d fc vi' inc by (simp add: Let_def)
qed

lemma spec_foldPhi_body:
  assumes "spec_foldPhi fs em B (f, vi) p = (f', vi')"
  shows "\<exists>k. nextInst f' = nextInst f + k
           \<and> body f' B = removeAll p (phis f B @ [nextInst f ..< nextInst f + k] @ nonPhis f B)
           \<and> (\<forall>b. b \<noteq> B \<longrightarrow> body f' b = removeAll p (body f b))"
proof -
  let ?steps = "spec_chain fs (nextInst f) (fst (hd (incoming f p)))
                  (map (\<lambda>x. (the (em (snd x, B)), fst x)) (tl (incoming f p)))"
  let ?k = "length (List.map_filter snd ?steps)"
  have ids: "map fst (List.map_filter snd ?steps) = [nextInst f ..< nextInst f + ?k]"
    by (rule spec_chain_ids)
  from assms have "nextInst f' = nextInst f + ?k
           \<and> body f' B = removeAll p (phis f B @ map fst (List.map_filter snd ?steps) @ nonPhis f B)
           \<and> (\<forall>b. b \<noteq> B \<longrightarrow> body f' b = removeAll p (body f b))"
    by (auto simp: spec_foldPhi_def Let_def eraseFromParent_def replaceAllUsesWith_def)
  then show ?thesis unfolding ids by blast
qed

lemma spec_foldPhi_below:
  assumes "spec_foldPhi fs em B (f, vi) p = (f', vi')" "insts_below f"
  shows "insts_below f' \<and> nextInst f \<le> nextInst f'
       \<and> (\<forall>b. p \<notin> set (body f' b))
       \<and> (\<forall>q. (\<forall>b. q \<notin> set (body f b)) \<and> q < nextInst f \<longrightarrow> (\<forall>b. q \<notin> set (body f' b)))"
proof -
  from spec_foldPhi_body[OF assms(1)] obtain k where
    n: "nextInst f' = nextInst f + k"
    and bB: "body f' B = removeAll p (phis f B @ [nextInst f ..< nextInst f + k] @ nonPhis f B)"
    and bo: "\<forall>b. b \<noteq> B \<longrightarrow> body f' b = removeAll p (body f b)"
    by blast
  have sub: "\<And>b. set (body f' b) \<subseteq> (set (body f b) \<union> {nextInst f ..< nextInst f + k}) - {p}"
  proof -
    fix b
    show "set (body f' b) \<subseteq> (set (body f b) \<union> {nextInst f ..< nextInst f + k}) - {p}"
    proof (cases "b = B")
      case True
      have "set (body f' B) = (set (phis f B) \<union> set (nonPhis f B) \<union> {nextInst f ..< nextInst f + k}) - {p}"
        unfolding bB by auto
      with True show ?thesis unfolding phis_nonPhis_set by simp
    next
      case False
      with bo show ?thesis by auto
    qed
  qed
  have below: "insts_below f'"
    unfolding insts_below_def
  proof (intro allI ballI)
    fix b i assume "i \<in> set (body f' b)"
    with sub[of b] have "i \<in> set (body f b) \<or> i < nextInst f + k" by auto
    with assms(2) n show "i < nextInst f'" unfolding insts_below_def by fastforce
  qed
  have p: "\<forall>b. p \<notin> set (body f' b)" using sub by blast
  have q: "\<forall>q. (\<forall>b. q \<notin> set (body f b)) \<and> q < nextInst f \<longrightarrow> (\<forall>b. q \<notin> set (body f' b))"
  proof (intro allI impI)
    fix q b assume a: "(\<forall>b. q \<notin> set (body f b)) \<and> q < nextInst f"
    show "q \<notin> set (body f' b)"
    proof
      assume "q \<in> set (body f' b)"
      with sub[of b] have "q \<in> set (body f b) \<or> nextInst f \<le> q" by auto
      with a show False by auto
    qed
  qed
  from below n p q show ?thesis by simp
qed

lemma foldPhi_all_spec:
  assumes "foldPhi_all fs em B (f, vi) ps = Inr (f', vi')" "insts_below f"
    "\<forall>p \<in> set ps. p < nextInst f"
  shows "(f', vi') = fold (\<lambda>p s. spec_foldPhi fs em B s p) ps (f, vi)
       \<and> insts_below f'
       \<and> (\<forall>p \<in> set ps. \<forall>b. p \<notin> set (body f' b))
       \<and> (\<forall>q. (\<forall>b. q \<notin> set (body f b)) \<and> q < nextInst f \<longrightarrow> (\<forall>b. q \<notin> set (body f' b)))"
  using assms
proof (induction ps arbitrary: f vi)
  case Nil
  then show ?case by simp
next
  case (Cons p ps)
  from Cons.prems(1) obtain f1 vi1 where
    s1: "foldPhi fs em B (f, vi) p = Inr (f1, vi1)"
    and rec: "foldPhi_all fs em B (f1, vi1) ps = Inr (f', vi')"
    by (cases "foldPhi fs em B (f, vi) p") auto
  from foldPhi_spec[OF s1 Cons.prems(2)] have sp: "spec_foldPhi fs em B (f, vi) p = (f1, vi1)" by simp
  from spec_foldPhi_below[OF sp Cons.prems(2)] have
    b1: "insts_below f1" and n1: "nextInst f \<le> nextInst f1"
    and p1: "\<forall>b. p \<notin> set (body f1 b)"
    and q1: "\<forall>q. (\<forall>b. q \<notin> set (body f b)) \<and> q < nextInst f \<longrightarrow> (\<forall>b. q \<notin> set (body f1 b))"
    by blast+
  from Cons.prems(3) n1 have lt: "\<forall>p \<in> set ps. p < nextInst f1" by fastforce
  note IH = Cons.IH[OF rec b1 lt]
  from IH have e: "(f', vi') = fold (\<lambda>p s. spec_foldPhi fs em B s p) ps (f1, vi1)"
    and b': "insts_below f'"
    and d': "\<forall>p \<in> set ps. \<forall>b. p \<notin> set (body f' b)"
    and q': "\<forall>q. (\<forall>b. q \<notin> set (body f1 b)) \<and> q < nextInst f1 \<longrightarrow> (\<forall>b. q \<notin> set (body f' b))"
    by blast+
  from Cons.prems(3) n1 have "p < nextInst f1" by fastforce
  with p1 q' have pd: "\<forall>b. p \<notin> set (body f' b)" by blast
  have qq: "\<forall>q. (\<forall>b. q \<notin> set (body f b)) \<and> q < nextInst f \<longrightarrow> (\<forall>b. q \<notin> set (body f' b))"
  proof (intro allI impI)
    fix q b assume a: "(\<forall>b. q \<notin> set (body f b)) \<and> q < nextInst f"
    with q1 have "\<forall>b. q \<notin> set (body f1 b)" by blast
    moreover from a n1 have "q < nextInst f1" by simp
    ultimately show "q \<notin> set (body f' b)" using q' by blast
  qed
  from e sp b' d' pd qq show ?case by simp
qed

lemma foldPhis_first:
  assumes "body f B = i # is" "\<not> isPHI (instr f i) \<or> \<not> needsFoldingPhi f B i"
  shows "foldPhis fs em (f, vi) B = Inr (f, vi)"
  using assms by (auto simp: foldPhis_def)

lemma skip_facts:
  "body skip_fn 3 = [34, 30, 31, 32]" "phis skip_fn 3 = [34, 30]" "predecessors skip_fn 3 = [2]"
  "incoming skip_fn 34 = [(Arg 5, 2)]" "incoming skip_fn 30 = [(Inst 10, 1), (Inst 20, 2)]"
  "\<not> needsFoldingPhi skip_fn 3 34" "needsFoldingPhi skip_fn 3 30"
  by code_simp+

lemma const_eval:
  "(case foldPhis (\<lambda>c t e. t) const_em (const_fn, ite_vi) 3 of
      Inr (f', vi') \<Rightarrow>
        body f' 3 = [31, 32] \<and> nextInst f' = nextInst const_fn \<and> instr f' 31 = Op [ConstInt 32 2]
    | Inl e \<Rightarrow> False)"
  by code_simp

lemma const_facts:
  "phis const_fn 3 = [30]" "predecessors const_fn 3 = [2]"
  "incoming const_fn 30 = [(ConstInt 32 1, 1), (ConstInt 32 2, 2)]"
  "needsFoldingPhi const_fn 3 30" "const_em (2, 3) = Some (ConstInt 1 1)"
  by code_simp+

text \<open>
  C8 as stated does not hold, in two ways.  \<open>foldPhis\<close> tests the first PHI node of the
  block only: in block 3 of \<open>skip_fn\<close> the first PHI node \<open>Inst 34\<close> knows the only
  predecessor, block 2, the second one, \<open>Inst 30\<close>, has the incoming block 1, which is no
  predecessor, and \<open>foldPhis\<close> changes nothing.  And the IR builder creates no select for
  three constants: in block 3 of \<open>const_fn\<close> the PHI node \<open>Inst 30\<close> needs folding, its
  incoming values and the edge mask are constants, and after \<open>foldPhis\<close> the block holds
  no select, no instruction has been created, and the use of the PHI node reads the
  constant the folder has returned.
\<close>

theorem foldPhis_no_select_chain:
  "phis skip_fn 3 = [34, 30]
   \<and> predecessors skip_fn 3 = [2]
   \<and> incoming skip_fn 30 = [(Inst 10, 1), (Inst 20, 2)]
   \<and> needsFoldingPhi skip_fn 3 30
   \<and> foldPhis (\<lambda>c t e. t) ite_em (skip_fn, ite_vi) 3 = Inr (skip_fn, ite_vi)
   \<and> phis const_fn 3 = [30]
   \<and> predecessors const_fn 3 = [2]
   \<and> incoming const_fn 30 = [(ConstInt 32 1, 1), (ConstInt 32 2, 2)]
   \<and> needsFoldingPhi const_fn 3 30
   \<and> const_em (2, 3) = Some (ConstInt 1 1)
   \<and> (\<exists>f' vi'. foldPhis (\<lambda>c t e. t) const_em (const_fn, ite_vi) 3 = Inr (f', vi')
         \<and> body f' 3 = [31, 32] \<and> nextInst f' = nextInst const_fn
         \<and> instr f' 31 = Op [ConstInt 32 2])"
proof -
  have a: "foldPhis (\<lambda>c t e. t) ite_em (skip_fn, ite_vi) 3 = Inr (skip_fn, ite_vi)"
    by (rule foldPhis_first[OF skip_facts(1)]) (simp add: skip_facts)
  have b: "\<exists>f' vi'. foldPhis (\<lambda>c t e. t) const_em (const_fn, ite_vi) 3 = Inr (f', vi')
         \<and> body f' 3 = [31, 32] \<and> nextInst f' = nextInst const_fn
         \<and> instr f' 31 = Op [ConstInt 32 2]"
    using const_eval
    by (cases "foldPhis (\<lambda>c t e. t) const_em (const_fn, ite_vi) 3") auto
  show ?thesis
    by (intro conjI skip_facts(2,3,5,7) a const_facts b)
qed

text \<open>
  C8, amended.  When the first instruction of the block \<open>B\<close> is no PHI node, or a PHI node
  that does not need folding, \<open>foldPhis\<close> changes nothing.  When it is a PHI node that
  needs folding and \<open>foldPhis\<close> returns, every PHI node at the start of \<open>B\<close> has been
  folded, in their order, as \<open>spec_foldPhi\<close> says: with the incoming values
  \<open>(v\<^sub>0, b\<^sub>0), (v\<^sub>1, b\<^sub>1), ...\<close> the chain is \<open>d = v\<^sub>0\<close>, then
  \<open>d = select(edgeMask(b\<^sub>i, B), v\<^sub>i, d)\<close>, a new select instruction, or, when the three
  operands are constants, the constant the IR builder folds them to; the new selects stand
  in the order of the chain at the first insertion point of \<open>B\<close>; every value of the chain
  gets the shape of the PHI node; the uses of the PHI node are replaced by the last value
  of the chain; the PHI node is erased, and it is in no block afterwards.  (The identities
  of the instructions in the blocks are below the identity of the next instruction.)
\<close>

theorem foldPhis_select_chains:
  assumes "insts_below f"
  shows "(\<forall>i is. body f B = i # is \<and> (\<not> isPHI (instr f i) \<or> \<not> needsFoldingPhi f B i)
            \<longrightarrow> foldPhis fs em (f, vi) B = Inr (f, vi))
       \<and> (\<forall>i is f' vi'. body f B = i # is \<and> isPHI (instr f i) \<and> needsFoldingPhi f B i
              \<and> foldPhis fs em (f, vi) B = Inr (f', vi')
            \<longrightarrow> (f', vi') = fold (\<lambda>p s. spec_foldPhi fs em B s p) (phis f B) (f, vi)
              \<and> (\<forall>p \<in> set (phis f B). \<forall>b. p \<notin> set (body f' b)))"
proof (rule conjI)
  show "\<forall>i is. body f B = i # is \<and> (\<not> isPHI (instr f i) \<or> \<not> needsFoldingPhi f B i)
            \<longrightarrow> foldPhis fs em (f, vi) B = Inr (f, vi)"
    using foldPhis_first by blast
next
  show "\<forall>i is f' vi'. body f B = i # is \<and> isPHI (instr f i) \<and> needsFoldingPhi f B i
              \<and> foldPhis fs em (f, vi) B = Inr (f', vi')
            \<longrightarrow> (f', vi') = fold (\<lambda>p s. spec_foldPhi fs em B s p) (phis f B) (f, vi)
              \<and> (\<forall>p \<in> set (phis f B). \<forall>b. p \<notin> set (body f' b))"
  proof (intro allI impI)
    fix i "is" f' vi'
    assume a: "body f B = i # is \<and> isPHI (instr f i) \<and> needsFoldingPhi f B i
                \<and> foldPhis fs em (f, vi) B = Inr (f', vi')"
    then have all: "foldPhi_all fs em B (f, vi) (phis f B) = Inr (f', vi')"
      by (auto simp: foldPhis_def)
    have lt: "\<forall>p \<in> set (phis f B). p < nextInst f"
    proof
      fix p assume "p \<in> set (phis f B)"
      then have "p \<in> set (body f B)" using phis_nonPhis_set[of f B] by blast
      with assms show "p < nextInst f" unfolding insts_below_def by blast
    qed
    from foldPhi_all_spec[OF all assms lt]
    show "(f', vi') = fold (\<lambda>p s. spec_foldPhi fs em B s p) (phis f B) (f, vi)
                \<and> (\<forall>p \<in> set (phis f B). \<forall>b. p \<notin> set (body f' b))"
      by blast
  qed
qed

lemma ite2_facts:
  "body ite2_fn 3 = [30, 33, 31, 32]" "isPHI (instr ite2_fn 30)" "needsFoldingPhi ite2_fn 3 30"
  "phis ite2_fn 3 = [30, 33]"
  "body ite_fn 4 = [35, 36]" "\<not> needsFoldingPhi ite_fn 4 35"
  by code_simp+

lemma ite2_below: "insts_below ite2_fn" "insts_below ite_fn"
  by (auto simp: insts_below_def ite_defs split: if_splits)

lemma ite2_eval:
  "(case foldPhis (\<lambda>c t e. e) ite_em (ite2_fn, ite_vi) 3 of
      Inr (f', vi') \<Rightarrow>
        body f' 3 = [41, 40, 31, 32]
      \<and> instr f' 40 = Select (Arg 0) (Inst 20) (Inst 10)
      \<and> instr f' 41 = Select (Arg 0) (Arg 6) (Arg 5)
      \<and> instr f' 31 = Op [Inst 40]
      \<and> getVectorShape vi' (Inst 40) = Varying 1
    | Inl e \<Rightarrow> False)"
  by code_simp

theorem foldPhis_select_chains_witness:
  "insts_below ite2_fn
   \<and> body ite2_fn 3 = [30, 33, 31, 32] \<and> isPHI (instr ite2_fn 30) \<and> needsFoldingPhi ite2_fn 3 30
   \<and> phis ite2_fn 3 = [30, 33]
   \<and> (\<exists>f' vi'. foldPhis (\<lambda>c t e. e) ite_em (ite2_fn, ite_vi) 3 = Inr (f', vi')
        \<and> (f', vi') = spec_foldPhi (\<lambda>c t e. e) ite_em 3
                        (spec_foldPhi (\<lambda>c t e. e) ite_em 3 (ite2_fn, ite_vi) 30) 33
        \<and> body f' 3 = [41, 40, 31, 32]
        \<and> instr f' 40 = Select (Arg 0) (Inst 20) (Inst 10)
        \<and> instr f' 41 = Select (Arg 0) (Arg 6) (Arg 5)
        \<and> instr f' 31 = Op [Inst 40]
        \<and> getVectorShape vi' (Inst 40) = Varying 1
        \<and> (\<forall>b. 30 \<notin> set (body f' b)) \<and> (\<forall>b. 33 \<notin> set (body f' b)))
   \<and> insts_below ite_fn \<and> body ite_fn 4 = [35, 36] \<and> \<not> needsFoldingPhi ite_fn 4 35
   \<and> foldPhis (\<lambda>c t e. e) ite_em (ite_fn, ite_vi) 4 = Inr (ite_fn, ite_vi)"
proof -
  let ?fs = "\<lambda>(c::val) (t::val) (e::val). e"
  from ite2_eval obtain f' vi' where
    run: "foldPhis ?fs ite_em (ite2_fn, ite_vi) 3 = Inr (f', vi')"
    and ev: "body f' 3 = [41, 40, 31, 32]" "instr f' 40 = Select (Arg 0) (Inst 20) (Inst 10)"
      "instr f' 41 = Select (Arg 0) (Arg 6) (Arg 5)" "instr f' 31 = Op [Inst 40]"
      "getVectorShape vi' (Inst 40) = Varying 1"
    by (cases "foldPhis ?fs ite_em (ite2_fn, ite_vi) 3") auto
  note T = foldPhis_select_chains[OF ite2_below(1), where B = 3 and fs = "?fs" and em = ite_em
      and vi = ite_vi]
  from T[THEN conjunct2] ite2_facts(1-3) run
  have sp: "(f', vi') = fold (\<lambda>p s. spec_foldPhi ?fs ite_em 3 s p) (phis ite2_fn 3) (ite2_fn, ite_vi)
              \<and> (\<forall>p \<in> set (phis ite2_fn 3). \<forall>b. p \<notin> set (body f' b))"
    by blast
  then have e: "(f', vi') = spec_foldPhi ?fs ite_em 3 (spec_foldPhi ?fs ite_em 3 (ite2_fn, ite_vi) 30) 33"
    and d: "\<forall>b. 30 \<notin> set (body f' b)" "\<forall>b. 33 \<notin> set (body f' b)"
    by (simp_all add: ite2_facts(4))
  note U = foldPhis_select_chains[OF ite2_below(2), where B = 4 and fs = "?fs" and em = ite_em
      and vi = ite_vi]
  from U[THEN conjunct1] ite2_facts(5,6)
  have u: "foldPhis ?fs ite_em (ite_fn, ite_vi) 4 = Inr (ite_fn, ite_vi)" by blast
  have ex: "\<exists>f' vi'. foldPhis ?fs ite_em (ite2_fn, ite_vi) 3 = Inr (f', vi')
        \<and> (f', vi') = spec_foldPhi ?fs ite_em 3 (spec_foldPhi ?fs ite_em 3 (ite2_fn, ite_vi) 30) 33
        \<and> body f' 3 = [41, 40, 31, 32]
        \<and> instr f' 40 = Select (Arg 0) (Inst 20) (Inst 10)
        \<and> instr f' 41 = Select (Arg 0) (Arg 6) (Arg 5)
        \<and> instr f' 31 = Op [Inst 40]
        \<and> getVectorShape vi' (Inst 40) = Varying 1
        \<and> (\<forall>b. 30 \<notin> set (body f' b)) \<and> (\<forall>b. 33 \<notin> set (body f' b))"
    apply (rule exI[of _ f'], rule exI[of _ vi'])
    using run e ev d by blast
  from ite2_below ite2_facts ex u show ?thesis by blast
qed

section \<open>Properties of convertToSingleExitLoop\<close>



































section \<open>The closed-SSA PHI nodes of the old exit blocks\<close>
















end
